theory Spec2Isabelle
  imports Complex_Main "HOL-Library.Word"
begin

unbundle bit_operations_syntax

section \<open>JavaScript values\<close>

text \<open>
  A JavaScript number is a double: not-a-number, an infinity, or a finite value. Every
  finite double is a rational, so the finite case carries a rational; the two zeros are
  both \<open>Fin 0\<close> (they are equal under \<open>===\<close> and convert to the same integer).
\<close>

datatype jsnum = NaN | PosInf | NegInf | Fin rat

text \<open>
  A field that the firmware sends as a JSON number and that the gateway feeds to bitwise
  operators: it is missing (\<open>undefined\<close>), \<open>null\<close>, or a number.
\<close>

datatype numfield = NUndefined | NNull | NNum jsnum

text \<open>
  ECMAScript ToInt32, the conversion that \<open>&\<close> and \<open>>>\<close> apply to their operands:
  not-a-number and the infinities give 0, a finite value is truncated towards zero and
  reduced modulo \<open>2^32\<close> into the signed 32-bit range.
\<close>

definition truncate_rat :: "rat \<Rightarrow> int" where
  "truncate_rat q = (if 0 \<le> q then \<lfloor>q\<rfloor> else - \<lfloor>- q\<rfloor>)"

fun toInt32 :: "jsnum \<Rightarrow> 32 word" where
  "toInt32 NaN = 0"
| "toInt32 PosInf = 0"
| "toInt32 NegInf = 0"
| "toInt32 (Fin q) = word_of_int (truncate_rat q)"

section \<open>Packed temperatures\<close>

record temps =
  current :: int
  target :: int

text \<open>
  \<open>decodeTemp\<close> of the report handler. \<open>encoded & 0xFFFF\<close> is the bitwise and of the
  32-bit operand, \<open>encoded >> 16\<close> the sign-propagating shift; both results are read as
  signed 32-bit integers.
\<close>

definition decodeTemp :: "numfield \<Rightarrow> temps" where
  "decodeTemp encoded =
     (if encoded = NUndefined \<or> encoded = NNull \<or> encoded = NNum (Fin 0)
      then \<lparr>current = 0, target = 0\<rparr>
      else (case encoded of
              NNum n \<Rightarrow>
                \<lparr>current = sint (toInt32 n AND 0xFFFF),
                 target = sint (signed_drop_bit 16 (toInt32 n) AND 0xFFFF)\<rparr>
            | _ \<Rightarrow> \<lparr>current = 0, target = 0\<rparr>))"


text \<open>
  A scalar JSON value as the report handler sees it. The handler copies most fields
  without looking at their type, so the snapshot keeps whatever scalar the device sent.
\<close>

datatype jsval = JUndefined | JNull | JBool bool | JNum jsnum | JStr string

text \<open>\<open>a ?? b\<close>: the right operand replaces \<open>undefined\<close> and \<open>null\<close> only.\<close>

definition nullish :: "jsval \<Rightarrow> bool" where
  "nullish v = (v = JUndefined \<or> v = JNull)"

definition coalesce :: "jsval \<Rightarrow> jsval \<Rightarrow> jsval" where
  "coalesce a b = (if nullish a then b else a)"

text \<open>Truthiness, and \<open>a || b\<close>: the right operand replaces every falsy value.\<close>

definition num_truthy :: "jsnum \<Rightarrow> bool" where
  "num_truthy n = (n \<noteq> NaN \<and> n \<noteq> Fin 0)"

fun truthy :: "jsval \<Rightarrow> bool" where
  "truthy JUndefined = False"
| "truthy JNull = False"
| "truthy (JBool b) = b"
| "truthy (JNum n) = num_truthy n"
| "truthy (JStr s) = (s \<noteq> [])"

definition or_else :: "jsval \<Rightarrow> jsval \<Rightarrow> jsval" where
  "or_else a b = (if truthy a then a else b)"

text \<open>\<open>n > 0\<close> on numbers.\<close>

fun num_gt0 :: "jsnum \<Rightarrow> bool" where
  "num_gt0 NaN = False"
| "num_gt0 PosInf = True"
| "num_gt0 NegInf = False"
| "num_gt0 (Fin q) = (0 < q)"

text \<open>
  \<open>parseInt\<close> and \<open>parseFloat\<close> are functions of the JavaScript runtime, not of this
  program: the model takes them as parameters and every result holds for any choice.
\<close>

record builtins =
  parseInt :: "jsval \<Rightarrow> jsnum"
  parseFloat :: "jsval \<Rightarrow> jsnum"

text \<open>
  \<open>toUpperCase\<close> on the ASCII letters (model names are ASCII) and \<open>includes\<close>.
\<close>

definition upper_char :: "char \<Rightarrow> char" where
  "upper_char c =
     (let n = (of_char c :: nat) in if 97 \<le> n \<and> n \<le> 122 then char_of (n - 32) else c)"

definition toUpperCase :: "string \<Rightarrow> string" where
  "toUpperCase s = map upper_char s"

fun includes_str :: "string \<Rightarrow> string \<Rightarrow> bool" where
  "includes_str [] pat = (pat = [])"
| "includes_str (c # cs) pat = (take (length pat) (c # cs) = pat \<or> includes_str cs pat)"

section \<open>Printer registry entries\<close>

text \<open>The descriptor the control plane announces (\<open>printers:list\<close>, \<open>printer:add\<close>).\<close>

record printer =
  pid :: jsval
  name :: jsval
  model :: "string option"
  serialNumber :: string
  ipAddress :: jsval
  accessCode :: jsval

record unit_data =
  ud_id :: nat
  ud_temp :: jsnum
  ud_humidity :: "jsnum option"
  ud_humidityIndex :: "jsnum option"

record tray_data =
  td_id :: nat
  td_unitId :: nat
  td_slot :: nat
  td_type :: jsval
  td_color :: jsval
  td_name :: jsval
  td_remain :: jsnum
  td_k :: jsval
  td_nozzleTempMin :: jsval
  td_nozzleTempMax :: jsval
  td_trayInfoIdx :: jsval
  td_tagUid :: jsval
  td_trayUuid :: jsval
  td_trayWeight :: jsnum
  td_dryingTemp :: jsnum
  td_dryingTime :: jsnum

record ams_state =
  as_humidity :: jsval
  as_trayNow :: jsval
  as_units :: "unit_data list option"
  as_trays :: "tray_data list option"

record spool =
  sp_id :: "jsnum option"
  sp_type :: jsval
  sp_color :: jsval
  sp_name :: jsval
  sp_remain :: jsnum
  sp_k :: jsval
  sp_nozzleTempMin :: jsval
  sp_nozzleTempMax :: jsval
  sp_trayInfoIdx :: jsval
  sp_tagUid :: jsval
  sp_trayWeight :: jsnum

type_synonym hms_entry = "(string \<times> jsval) list"

record h2dump =
  printKeys :: jsval
  topKeys :: jsval
  dump_device :: jsval
  dump_2D :: jsval
  dump_3D :: jsval
  dump_info :: jsval

text \<open>
  A value of the \<open>printers\<close> map: the descriptor's fields (absent when the object was
  created from \<open>{}\<close>) and the fields of the \<open>status\<close> object. A field that the object
  does not have reads \<open>undefined\<close>: \<open>JUndefined\<close> or \<open>None\<close>.
\<close>

record entry =
  descriptor :: "printer option"
  online :: jsval
  gcodeState :: jsval
  printProgress :: jsval
  remainingTime :: jsval
  currentFile :: jsval
  layer :: jsval
  totalLayers :: jsval
  nozzleTemp :: jsval
  nozzleTargetTemp :: jsval
  nozzleTemp2 :: jsval
  nozzleTargetTemp2 :: jsval
  bedTemp :: jsval
  bedTargetTemp :: jsval
  chamberTemp :: jsval
  partFan :: jsval
  auxFan :: jsval
  chamberFan :: jsval
  chamberLight :: jsval
  workLight :: jsval
  speedLevel :: jsval
  speedMagnitude :: jsval
  ams :: "ams_state option"
  externalSpool :: "spool option"
  externalSpools :: "spool list option"
  wifiSignal :: jsval
  printType :: jsval
  printError :: jsval
  printErrorCode :: jsval
  printStage :: jsval
  hms :: "hms_entry list option"
  h2debug :: "h2dump option"

definition empty_entry :: entry where
  "empty_entry =
     \<lparr>descriptor = None, online = JUndefined, gcodeState = JUndefined,
      printProgress = JUndefined, remainingTime = JUndefined, currentFile = JUndefined,
      layer = JUndefined, totalLayers = JUndefined, nozzleTemp = JUndefined,
      nozzleTargetTemp = JUndefined, nozzleTemp2 = JUndefined,
      nozzleTargetTemp2 = JUndefined, bedTemp = JUndefined, bedTargetTemp = JUndefined,
      chamberTemp = JUndefined, partFan = JUndefined, auxFan = JUndefined,
      chamberFan = JUndefined, chamberLight = JUndefined, workLight = JUndefined,
      speedLevel = JUndefined, speedMagnitude = JUndefined, ams = None,
      externalSpool = None, externalSpools = None, wifiSignal = JUndefined,
      printType = JUndefined, printError = JUndefined, printErrorCode = JUndefined,
      printStage = JUndefined, hms = None, h2debug = None\<rparr>"

text \<open>\<open>{ ...printer, online: true }\<close>, the entry the connect handler stores.\<close>

definition entry_of_printer :: "printer \<Rightarrow> entry" where
  "entry_of_printer p = empty_entry\<lparr>descriptor := Some p, online := JBool True\<rparr>"

text \<open>\<open>entry?.model?.toUpperCase()?.includes('H2')\<close>, read for its truthiness.\<close>

definition isH2 :: "entry \<Rightarrow> bool" where
  "isH2 e =
     (case descriptor e of
        None \<Rightarrow> False
      | Some d \<Rightarrow> (case model d of None \<Rightarrow> False | Some m \<Rightarrow> includes_str (toUpperCase m) ''H2''))"

section \<open>Device reports\<close>

text \<open>
  The \<open>print\<close> object of a report, typed by the shape the firmware sends: scalars are
  \<open>jsval\<close> (absent fields read \<open>JUndefined\<close>), arrays are lists, absent arrays and
  objects are \<open>None\<close>. Nested paths are flattened: \<open>device_ctc_info_temp\<close> is
  \<open>print.device.ctc.info.temp\<close>, \<open>device_extruder_info\<close> the \<open>temp\<close> fields of the
  array \<open>print.device.extruder.info\<close>, \<open>extruder_info\<close> those of \<open>print.extruder.info\<close>,
  \<open>info_temp\<close> is \<open>print.info.temp\<close>.
\<close>

record tray_report =
  tr_id :: jsval
  tray_type :: jsval
  tray_color :: jsval
  tray_sub_brands :: jsval
  remain :: jsval
  tr_k :: jsval
  nozzle_temp_min :: jsval
  nozzle_temp_max :: jsval
  tray_info_idx :: jsval
  tag_uid :: jsval
  tray_uuid :: jsval
  tray_weight :: jsval
  drying_temp :: jsval
  drying_time :: jsval

record unit_report =
  humidity_raw :: jsval
  humidity :: jsval
  temp :: jsval
  tray :: "tray_report option list option"

record ams_report =
  ams_humidity :: jsval
  tray_now :: jsval
  ams_units :: "unit_report list option"

record print_report =
  gcode_state :: jsval
  mc_percent :: jsval
  mc_remaining_time :: jsval
  gcode_file :: jsval
  subtask_name :: jsval
  layer_num :: jsval
  total_layer_num :: jsval
  nozzle_temper :: jsval
  nozzle_target_temper :: jsval
  nozzle_temper_2 :: jsval
  nozzle_target_temper_2 :: jsval
  bed_temper :: jsval
  bed_target_temper :: jsval
  chamber_temper :: jsval
  info_temp :: jsval
  cooling_fan_speed :: jsval
  big_fan1_speed :: jsval
  big_fan2_speed :: jsval
  lights_report :: "(jsval \<times> jsval) list option"
  spd_lvl :: jsval
  spd_mag :: jsval
  p_ams :: "ams_report option"
  vir_slot :: "tray_report list option"
  vt_tray :: "tray_report option"
  wifi_signal :: jsval
  print_type :: jsval
  print_error :: jsval
  mc_print_error_code :: jsval
  mc_print_stage :: jsval
  p_hms :: "hms_entry list option"
  device_ctc_info_temp :: numfield
  device_extruder_info :: "numfield list option"
  extruder_info :: "numfield list option"

text \<open>
  A parsed report: its \<open>print\<close> object, if any, and the strings that \<open>Object.keys\<close> and
  \<open>JSON.stringify\<close> give on the raw message for the \<open>_h2debug\<close> field.
\<close>

record message =
  print :: "print_report option"
  dump :: h2dump

text \<open>
  The report \<open>{ print: {} }\<close>, for writing concrete reports as updates of it, and
  stand-ins for the runtime's parsers where a concrete value is evaluated.
\<close>

definition empty_report :: print_report where
  "empty_report =
     \<lparr>gcode_state = JUndefined, mc_percent = JUndefined, mc_remaining_time = JUndefined,
      gcode_file = JUndefined, subtask_name = JUndefined, layer_num = JUndefined,
      total_layer_num = JUndefined, nozzle_temper = JUndefined,
      nozzle_target_temper = JUndefined, nozzle_temper_2 = JUndefined,
      nozzle_target_temper_2 = JUndefined, bed_temper = JUndefined,
      bed_target_temper = JUndefined, chamber_temper = JUndefined, info_temp = JUndefined,
      cooling_fan_speed = JUndefined, big_fan1_speed = JUndefined,
      big_fan2_speed = JUndefined, lights_report = None, spd_lvl = JUndefined,
      spd_mag = JUndefined, p_ams = None, vir_slot = None, vt_tray = None,
      wifi_signal = JUndefined, print_type = JUndefined, print_error = JUndefined,
      mc_print_error_code = JUndefined, mc_print_stage = JUndefined, p_hms = None,
      device_ctc_info_temp = NUndefined, device_extruder_info = None,
      extruder_info = None\<rparr>"

definition empty_dump :: h2dump where
  "empty_dump =
     \<lparr>printKeys = JStr [], topKeys = JStr ''print'', dump_device = JUndefined,
      dump_2D = JUndefined, dump_3D = JUndefined, dump_info = JUndefined\<rparr>"

definition report_msg :: "print_report \<Rightarrow> message" where
  "report_msg p = \<lparr>print = Some p, dump = empty_dump\<rparr>"

definition nanBuiltins :: builtins where
  "nanBuiltins = \<lparr>parseInt = (\<lambda>v. NaN), parseFloat = (\<lambda>v. NaN)\<rparr>"


section \<open>Telemetry merge\<close>

definition zero :: jsval where
  "zero = JNum (Fin 0)"

definition num_of_int :: "int \<Rightarrow> jsval" where
  "num_of_int i = JNum (Fin (of_int i))"

text \<open>
  Chamber temperature of the CTC module: a present value is masked to its low 16 bits
  and written into the stored entry before the rest of the report is read.
\<close>

definition applyCtc :: "entry \<Rightarrow> numfield \<Rightarrow> entry" where
  "applyCtc prev ctcTemp =
     (case ctcTemp of
        NNum n \<Rightarrow> prev\<lparr>chamberTemp := num_of_int (sint (toInt32 n AND 0xFFFF))\<rparr>
      | _ \<Rightarrow> prev)"

subsection \<open>Filament system\<close>

definition unitData :: "builtins \<Rightarrow> nat \<Rightarrow> unit_report \<Rightarrow> unit_data" where
  "unitData B unitIdx unit =
     (let hasHumidityRaw = (humidity_raw unit \<noteq> JUndefined \<and> humidity_raw unit \<noteq> JStr []);
          hasHumidityIndex = (humidity unit \<noteq> JUndefined \<and> humidity unit \<noteq> JStr []
                              \<and> num_gt0 (parseInt B (humidity unit)));
          t = parseFloat B (temp unit);
          i = parseInt B (humidity unit)
      in \<lparr>ud_id = unitIdx,
          ud_temp = (if num_truthy t then t else Fin 0),
          ud_humidity =
            (if hasHumidityRaw then Some (parseInt B (humidity_raw unit))
             else if hasHumidityIndex then Some i else None),
          ud_humidityIndex =
            (if hasHumidityRaw then Some (if num_truthy i then i else Fin 0)
             else if hasHumidityIndex then Some i else None)\<rparr>)"

definition hasData :: "tray_report \<Rightarrow> bool" where
  "hasData t =
     (truthy (tray_type t) \<or> (truthy (tray_color t) \<and> tray_color t \<noteq> JStr ''00000000''))"

definition trayData :: "builtins \<Rightarrow> nat \<Rightarrow> nat \<Rightarrow> tray_report \<Rightarrow> tray_data" where
  "trayData B unitIdx trayIdx t =
     \<lparr>td_id = unitIdx * 4 + trayIdx,
      td_unitId = unitIdx,
      td_slot = trayIdx,
      td_type = or_else (tray_type t) (JStr []),
      td_color = or_else (tray_color t) (JStr []),
      td_name = or_else (or_else (tray_sub_brands t) (tray_type t)) (JStr []),
      td_remain = (if \<not> nullish (remain t) then parseInt B (remain t) else Fin (- 1)),
      td_k = or_else (tr_k t) zero,
      td_nozzleTempMin = or_else (nozzle_temp_min t) zero,
      td_nozzleTempMax = or_else (nozzle_temp_max t) zero,
      td_trayInfoIdx = or_else (tray_info_idx t) (JStr []),
      td_tagUid = or_else (tag_uid t) (JStr []),
      td_trayUuid = or_else (tray_uuid t) (JStr []),
      td_trayWeight = (if truthy (tray_weight t) then parseInt B (tray_weight t) else Fin 0),
      td_dryingTemp = (if truthy (drying_temp t) then parseInt B (drying_temp t) else Fin 0),
      td_dryingTime = (if truthy (drying_time t) then parseInt B (drying_time t) else Fin 0)\<rparr>"

definition unitTrays :: "builtins \<Rightarrow> nat \<Rightarrow> unit_report \<Rightarrow> tray_data list" where
  "unitTrays B unitIdx unit =
     (case tray unit of
        None \<Rightarrow> []
      | Some ts \<Rightarrow>
          concat (map (\<lambda>(trayIdx, t).
                         case t of
                           None \<Rightarrow> []
                         | Some t' \<Rightarrow> if hasData t' then [trayData B unitIdx trayIdx t'] else [])
                      (enumerate 0 ts)))"

text \<open>
  The \<open>ams\<close> value the handler builds: \<open>None\<close> stands for its initial \<open>null\<close>, kept when
  the report has no \<open>ams\<close> object.
\<close>

definition parseAms :: "builtins \<Rightarrow> entry \<Rightarrow> print_report \<Rightarrow> ams_state option" where
  "parseAms B prevStatus p =
     (case p_ams p of
        None \<Rightarrow> None
      | Some a \<Rightarrow>
          (let prevAms = (case ams prevStatus of
                            None \<Rightarrow> \<lparr>as_humidity = JUndefined, as_trayNow = JUndefined,
                                      as_units = Some [], as_trays = Some []\<rparr>
                          | Some x \<Rightarrow> x);
               base = \<lparr>as_humidity = coalesce (ams_humidity a) (as_humidity prevAms),
                       as_trayNow = coalesce (tray_now a) (as_trayNow prevAms),
                       as_units = Some (case as_units prevAms of None \<Rightarrow> [] | Some u \<Rightarrow> u),
                       as_trays = Some (case as_trays prevAms of None \<Rightarrow> [] | Some t \<Rightarrow> t)\<rparr>
           in Some (case ams_units a of
                      None \<Rightarrow> base
                    | Some us \<Rightarrow>
                        base\<lparr>as_units := Some (map (\<lambda>(unitIdx, u). unitData B unitIdx u)
                                                  (enumerate 0 us)),
                             as_trays := Some (concat (map (\<lambda>(unitIdx, u). unitTrays B unitIdx u)
                                                          (enumerate 0 us)))\<rparr>)))"

subsection \<open>External spools\<close>

definition slotHasSpool :: "tray_report \<Rightarrow> bool" where
  "slotHasSpool s =
     (let vtType = or_else (tray_type s) (JStr []);
          vtColor = or_else (tray_color s) (JStr [])
      in truthy vtType \<or> (truthy vtColor \<and> vtColor \<noteq> JStr ''00000000''))"

text \<open>
  \<open>spoolData\<close>; the flag tells the \<open>vir_slot\<close> form, which has an \<open>id\<close>, from the
  \<open>vt_tray\<close> form, which has none.
\<close>

definition spoolData :: "builtins \<Rightarrow> bool \<Rightarrow> tray_report \<Rightarrow> spool" where
  "spoolData B withId s =
     \<lparr>sp_id = (if withId
               then Some (if \<not> nullish (tr_id s) then parseInt B (tr_id s) else Fin 254)
               else None),
      sp_type = or_else (tray_type s) (JStr []),
      sp_color = or_else (tray_color s) (JStr []),
      sp_name = or_else (tray_sub_brands s) (JStr []),
      sp_remain = (if \<not> nullish (remain s) then parseInt B (remain s) else Fin (- 1)),
      sp_k = or_else (tr_k s) zero,
      sp_nozzleTempMin = or_else (nozzle_temp_min s) zero,
      sp_nozzleTempMax = or_else (nozzle_temp_max s) zero,
      sp_trayInfoIdx = or_else (tray_info_idx s) (JStr []),
      sp_tagUid = or_else (tag_uid s) (JStr []),
      sp_trayWeight = (if truthy (tray_weight s) then parseInt B (tray_weight s) else Fin 0)\<rparr>"

text \<open>The list \<open>externalSpools\<close>; \<open>externalSpool\<close> is its first element, if any.\<close>

definition parseSpools :: "builtins \<Rightarrow> print_report \<Rightarrow> spool list" where
  "parseSpools B p =
     (case vir_slot p of
        Some (s # ss) \<Rightarrow> map (spoolData B True) (filter slotHasSpool (s # ss))
      | _ \<Rightarrow>
          (case vt_tray p of
             None \<Rightarrow> []
           | Some t \<Rightarrow> if slotHasSpool t then [spoolData B False t] else []))"

subsection \<open>Stale data and the printing-to-idle transition\<close>

definition currentState :: "entry \<Rightarrow> print_report \<Rightarrow> jsval" where
  "currentState prevStatus p = coalesce (gcode_state p) (gcodeState prevStatus)"

definition nowIdle :: "jsval \<Rightarrow> bool" where
  "nowIdle st = (st = JStr ''IDLE'' \<or> st = JStr ''FINISH'')"

definition wasPrinting :: "jsval \<Rightarrow> bool" where
  "wasPrinting st = (st = JStr ''RUNNING'' \<or> st = JStr ''PAUSE'' \<or> st = JStr ''PREPARE'')"

definition noActiveError :: "print_report \<Rightarrow> bool" where
  "noActiveError p =
     (print_error p = JUndefined \<or> print_error p = JNull \<or> print_error p = zero)"

definition staleDataFix :: "entry \<Rightarrow> print_report \<Rightarrow> entry" where
  "staleDataFix prevStatus p =
     (if nowIdle (currentState prevStatus p)
      then (let prev1 = (if noActiveError p
                         then prevStatus\<lparr>printError := zero, printErrorCode := JStr []\<rparr>
                         else prevStatus)
            in prev1\<lparr>printProgress := zero, remainingTime := zero,
                     nozzleTargetTemp := zero, nozzleTargetTemp2 := zero,
                     bedTargetTemp := zero, hms := Some []\<rparr>)
      else prevStatus)"

definition transitionReset :: "jsval \<Rightarrow> entry \<Rightarrow> entry" where
  "transitionReset cur prevStatus =
     (if wasPrinting (gcodeState prevStatus) \<and> nowIdle cur
      then prevStatus\<lparr>nozzleTemp := zero, nozzleTemp2 := JUndefined,
                       bedTemp := zero, chamberTemp := zero\<rparr>
      else prevStatus)"

text \<open>Both clean-up steps, in the order of the handler.\<close>

definition cleanUp :: "entry \<Rightarrow> print_report \<Rightarrow> entry" where
  "cleanUp prevStatus p =
     transitionReset (currentState prevStatus p) (staleDataFix prevStatus p)"

subsection \<open>Nozzle temperatures\<close>

record nozzles =
  nozzle1Temp :: jsval
  nozzle1Target :: jsval
  nozzle2Temp :: jsval
  nozzle2Target :: jsval

definition nozzleTemps :: "bool \<Rightarrow> entry \<Rightarrow> print_report \<Rightarrow> nozzles" where
  "nozzleTemps isH2Model prevStatus p =
     (let legacy =
            \<lparr>nozzle1Temp = (if isH2Model then coalesce (nozzleTemp prevStatus) zero
                             else coalesce (coalesce (nozzle_temper p) (nozzleTemp prevStatus)) zero),
             nozzle1Target = (if isH2Model then coalesce (nozzleTargetTemp prevStatus) zero
                               else coalesce (coalesce (nozzle_target_temper p)
                                                       (nozzleTargetTemp prevStatus)) zero),
             nozzle2Temp = (if isH2Model then nozzleTemp2 prevStatus
                             else coalesce (nozzle_temper_2 p) (nozzleTemp2 prevStatus)),
             nozzle2Target = (if isH2Model then nozzleTargetTemp2 prevStatus
                               else coalesce (nozzle_target_temper_2 p)
                                             (nozzleTargetTemp2 prevStatus))\<rparr>
      in case device_extruder_info p of
           Some (l # rest) \<Rightarrow>
             (let left = decodeTemp l;
                  n1 = legacy\<lparr>nozzle1Temp := num_of_int (current left),
                              nozzle1Target := num_of_int (target left)\<rparr>
              in case rest of
                   [] \<Rightarrow> n1
                 | r # _ \<Rightarrow>
                     (let right = decodeTemp r
                      in n1\<lparr>nozzle2Temp := num_of_int (current right),
                            nozzle2Target := num_of_int (target right)\<rparr>))
         | _ \<Rightarrow>
             (case extruder_info p of
                Some (l # r # _) \<Rightarrow>
                  (let left = decodeTemp l; right = decodeTemp r
                   in \<lparr>nozzle1Temp = num_of_int (current left),
                       nozzle1Target = num_of_int (target left),
                       nozzle2Temp = num_of_int (current right),
                       nozzle2Target = num_of_int (target right)\<rparr>)
              | _ \<Rightarrow> legacy))"

text \<open>The report has no packed extruder array that \<open>nozzleTemps\<close> would decode.\<close>

definition noPacked :: "print_report \<Rightarrow> bool" where
  "noPacked p =
     ((case device_extruder_info p of Some (l # rest) \<Rightarrow> False | _ \<Rightarrow> True)
      \<and> (case extruder_info p of Some (l # r # rest) \<Rightarrow> False | _ \<Rightarrow> True))"

subsection \<open>The status object\<close>

definition find_mode :: "(jsval \<times> jsval) list \<Rightarrow> string \<Rightarrow> jsval" where
  "find_mode ls node =
     (case find (\<lambda>l. fst l = JStr node) ls of None \<Rightarrow> JUndefined | Some l \<Rightarrow> snd l)"

text \<open>
  The body of \<open>if (data.print)\<close>: \<open>prevStatus\<close> is the stored entry (or \<open>{}\<close>), changed in
  place by the two clean-up steps; the result is \<open>{ ...entry, ...status }\<close>, the entry
  with every field of \<open>status\<close> written over it.
\<close>

definition mergePrint :: "builtins \<Rightarrow> entry \<Rightarrow> print_report \<Rightarrow> h2dump \<Rightarrow> entry" where
  "mergePrint B prevStatus0 p d =
     (let h2 = isH2 prevStatus0;
          amsNew = parseAms B prevStatus0 p;
          spools = parseSpools B p;
          prevStatus = cleanUp prevStatus0 p;
          nz = nozzleTemps h2 prevStatus p;
          chamberTempValue = coalesce (chamber_temper p) (if h2 then info_temp p else JUndefined)
      in prevStatus
           \<lparr>online := JBool True,
            gcodeState := coalesce (coalesce (gcode_state p) (gcodeState prevStatus)) (JStr ''IDLE''),
            printProgress := coalesce (coalesce (mc_percent p) (printProgress prevStatus)) zero,
            remainingTime := coalesce (coalesce (mc_remaining_time p) (remainingTime prevStatus)) zero,
            currentFile := or_else (or_else (or_else (gcode_file p) (subtask_name p))
                                            (currentFile prevStatus)) (JStr []),
            layer := coalesce (coalesce (layer_num p) (layer prevStatus)) zero,
            totalLayers := coalesce (coalesce (total_layer_num p) (totalLayers prevStatus)) zero,
            nozzleTemp := nozzle1Temp nz,
            nozzleTargetTemp := nozzle1Target nz,
            nozzleTemp2 := nozzle2Temp nz,
            nozzleTargetTemp2 := nozzle2Target nz,
            bedTemp := coalesce (coalesce (bed_temper p) (bedTemp prevStatus)) zero,
            bedTargetTemp := coalesce (coalesce (bed_target_temper p) (bedTargetTemp prevStatus)) zero,
            chamberTemp := coalesce (coalesce chamberTempValue (chamberTemp prevStatus)) zero,
            partFan := coalesce (cooling_fan_speed p) (partFan prevStatus),
            auxFan := coalesce (big_fan1_speed p) (auxFan prevStatus),
            chamberFan := coalesce (big_fan2_speed p) (chamberFan prevStatus),
            chamberLight :=
              (case lights_report p of
                 Some ls \<Rightarrow> JBool (find_mode ls ''chamber_light'' = JStr ''on'')
               | None \<Rightarrow> chamberLight prevStatus),
            workLight :=
              (case lights_report p of
                 Some ls \<Rightarrow> JBool (find_mode ls ''chamber_light'' = JStr ''on''
                                   \<or> find_mode ls ''chamber_light2'' = JStr ''on''
                                   \<or> find_mode ls ''work_light'' = JStr ''on'')
               | None \<Rightarrow> workLight prevStatus),
            speedLevel := coalesce (spd_lvl p) (speedLevel prevStatus),
            speedMagnitude := coalesce (spd_mag p) (speedMagnitude prevStatus),
            ams := (case amsNew of Some a \<Rightarrow> Some a | None \<Rightarrow> ams prevStatus),
            externalSpool := (case spools of x # _ \<Rightarrow> Some x | [] \<Rightarrow> externalSpool prevStatus),
            externalSpools := (if spools \<noteq> [] then Some spools else externalSpools prevStatus),
            wifiSignal := coalesce (wifi_signal p) (wifiSignal prevStatus),
            printType := coalesce (print_type p) (printType prevStatus),
            printError := coalesce (coalesce (print_error p) (printError prevStatus)) zero,
            printErrorCode := coalesce (coalesce (mc_print_error_code p) (printErrorCode prevStatus))
                                       (JStr []),
            printStage := coalesce (mc_print_stage p) (printStage prevStatus),
            hms := (case p_hms p of
                      Some h \<Rightarrow> Some h
                    | None \<Rightarrow> Some (case hms prevStatus of None \<Rightarrow> [] | Some h \<Rightarrow> h)),
            h2debug := (if h2 then Some d else None)\<rparr>)"

text \<open>
  The telemetry merge: what the message handler makes of the stored entry (\<open>{}\<close> when
  the serial has none) and one report. A report without a \<open>print\<close> object changes
  nothing.
\<close>

definition telemetryMerge :: "builtins \<Rightarrow> entry \<Rightarrow> message \<Rightarrow> entry" where
  "telemetryMerge B e msg =
     (case print msg of
        None \<Rightarrow> e
      | Some p \<Rightarrow> mergePrint B (applyCtc e (device_ctc_info_temp p)) p (dump msg))"


section \<open>Device connection manager\<close>

type_synonym serial = string
type_synonym client_id = nat
type_synonym timer_id = nat

text \<open>
  The objects that live in the runtime rather than in the program's tables. A client is
  what \<open>mqtt.connect\<close> returns: it exists from that call until its \<open>close\<close> event, and
  its handlers keep the \<open>printer\<close> they were created with. A timer is a pending
  \<open>setTimeout\<close>: its callback keeps \<open>serialNumber\<close> and \<open>cached\<close>.
\<close>

datatype client_phase = Connecting | Connected | Ending

record client =
  c_id :: client_id
  c_printer :: printer
  c_phase :: client_phase

record timer =
  t_id :: timer_id
  t_serial :: serial
  t_cached :: printer
  t_delay :: nat

text \<open>A command is a string or an object with a \<open>type\<close> and parameters.\<close>

datatype command = CmdString string | CmdObject "(string \<times> jsval) list"

text \<open>The \<open>sendLog\<close> calls, one constructor per call site, with the values they print.\<close>

datatype log_entry =
    LogCount nat
  | LogFromApi jsval "string option" serial
  | LogNewPrinter jsval
  | LogRemoved serial
  | LogConnecting jsval
  | LogConnected jsval
  | LogError jsval string
  | LogReconnect jsval nat nat
  | LogExecuteCommand serial command
  | LogNoClient serial "serial set"
  | LogPublish string

datatype payload = GetVersion | PushAll | PrintCommand string

record state =
  mqttClients :: "serial \<rightharpoonup> client_id"
  printers :: "serial \<rightharpoonup> entry"
  printerDataCache :: "serial \<rightharpoonup> printer"
  printerReconnectTimers :: "serial \<rightharpoonup> timer_id"
  reconnectAttempts :: "serial \<rightharpoonup> nat"
  mqttErrorThrottle :: "serial \<rightharpoonup> nat"
  clients :: "client list"
  timers :: "timer list"
  nextId :: nat
  logs :: "log_entry list"
  subscribed :: "(client_id \<times> string) list"
  published :: "(client_id \<times> string \<times> payload) list"

definition init :: state where
  "init =
     \<lparr>mqttClients = Map.empty, printers = Map.empty, printerDataCache = Map.empty,
      printerReconnectTimers = Map.empty, reconnectAttempts = Map.empty,
      mqttErrorThrottle = Map.empty, clients = [], timers = [], nextId = 0, logs = [],
      subscribed = [], published = []\<rparr>"

definition sendLog :: "log_entry \<Rightarrow> state \<Rightarrow> state" where
  "sendLog m st = st\<lparr>logs := logs st @ [m]\<rparr>"

text \<open>\<open>clearTimeout\<close>: the timer is no longer pending.\<close>

definition clearTimeout :: "timer_id \<Rightarrow> state \<Rightarrow> state" where
  "clearTimeout t st = st\<lparr>timers := filter (\<lambda>x. t_id x \<noteq> t) (timers st)\<rparr>"

text \<open>
  \<open>connectPrinter\<close> up to the registration of the handlers: the new client is in the
  runtime, connecting, and in no table yet.
\<close>

definition connectPrinter :: "printer \<Rightarrow> state \<Rightarrow> state" where
  "connectPrinter printer st =
     (let sn = serialNumber printer
      in if mqttClients st sn \<noteq> None then st
         else
           (let st1 = st\<lparr>printerDataCache := (printerDataCache st)(sn \<mapsto> printer)\<rparr>;
                st2 = (case printerReconnectTimers st1 sn of
                         Some t \<Rightarrow>
                           (clearTimeout t st1)
                             \<lparr>printerReconnectTimers := (printerReconnectTimers st1)(sn := None)\<rparr>
                       | None \<Rightarrow> st1);
                st3 = sendLog (LogConnecting (name printer)) st2
            in st3\<lparr>clients := clients st3 @
                                 [\<lparr>c_id = nextId st3, c_printer = printer, c_phase = Connecting\<rparr>],
                    nextId := Suc (nextId st3)\<rparr>))"

definition resetReconnectCounter :: "serial \<Rightarrow> state \<Rightarrow> state" where
  "resetReconnectCounter sn st =
     st\<lparr>reconnectAttempts := (reconnectAttempts st)(sn := None),
        mqttErrorThrottle := (mqttErrorThrottle st)(sn := None)\<rparr>"

text \<open>
  The reconnect delay in milliseconds, \<open>Math.min(5000 * Math.pow(2, attempts), 120000)\<close>,
  and \<open>Math.round(delay / 1000)\<close>.
\<close>

definition reconnectDelay :: "nat \<Rightarrow> nat" where
  "reconnectDelay attempts = min (5000 * 2 ^ attempts) 120000"

definition delaySec :: "nat \<Rightarrow> nat" where
  "delaySec delay = (delay + 500) div 1000"

definition scheduleReconnect :: "serial \<Rightarrow> state \<Rightarrow> state" where
  "scheduleReconnect sn st =
     (case printerDataCache st sn of
        None \<Rightarrow> st
      | Some cached \<Rightarrow>
          if mqttClients st sn \<noteq> None then st
          else
            (let attempts = (case reconnectAttempts st sn of None \<Rightarrow> 0 | Some a \<Rightarrow> a);
                 delay = reconnectDelay attempts;
                 st1 = st\<lparr>reconnectAttempts := (reconnectAttempts st)(sn \<mapsto> attempts + 1)\<rparr>;
                 st2 = (if attempts = 0 \<or> attempts mod 5 = 0
                        then sendLog (LogReconnect (name cached) (delaySec delay) (attempts + 1)) st1
                        else st1);
                 tm = \<lparr>t_id = nextId st2, t_serial = sn, t_cached = cached, t_delay = delay\<rparr>
             in st2\<lparr>timers := timers st2 @ [tm],
                     printerReconnectTimers := (printerReconnectTimers st2)(sn \<mapsto> t_id tm),
                     nextId := Suc (nextId st2)\<rparr>))"

text \<open>The callback of the reconnect timer.\<close>

definition reconnectTimeout :: "timer \<Rightarrow> state \<Rightarrow> state" where
  "reconnectTimeout tm st =
     (let sn = t_serial tm;
          st1 = st\<lparr>printerReconnectTimers := (printerReconnectTimers st)(sn := None)\<rparr>
      in if mqttClients st1 sn = None then connectPrinter (t_cached tm) st1 else st1)"

text \<open>
  The handlers of a client. Camera registration, the window refresh and the emit to the
  control plane write to other components and read none of these tables; they are not
  part of this state.
\<close>

definition onConnect :: "client \<Rightarrow> state \<Rightarrow> state" where
  "onConnect c st =
     (let printer = c_printer c;
          sn = serialNumber printer;
          st1 = sendLog (LogConnected (name printer)) st;
          st2 = st1\<lparr>mqttClients := (mqttClients st1)(sn \<mapsto> c_id c),
                    printers := (printers st1)(sn \<mapsto> entry_of_printer printer)\<rparr>;
          st3 = resetReconnectCounter sn st2
      in st3\<lparr>subscribed := subscribed st3 @ [(c_id c, ''device/'' @ sn @ ''/report'')],
              published := published st3 @
                             [(c_id c, ''device/'' @ sn @ ''/request'', GetVersion),
                              (c_id c, ''device/'' @ sn @ ''/request'', PushAll)]\<rparr>)"

definition onMessage :: "builtins \<Rightarrow> client \<Rightarrow> message \<Rightarrow> state \<Rightarrow> state" where
  "onMessage B c msg st =
     (let sn = serialNumber (c_printer c)
      in case print msg of
           None \<Rightarrow> st
         | Some p \<Rightarrow>
             st\<lparr>printers :=
                  (printers st)(sn \<mapsto> telemetryMerge B (case printers st sn of
                                                              None \<Rightarrow> empty_entry
                                                            | Some e \<Rightarrow> e) msg)\<rparr>)"

definition onError :: "client \<Rightarrow> nat \<Rightarrow> string \<Rightarrow> state \<Rightarrow> state" where
  "onError c now err st =
     (let sn = serialNumber (c_printer c);
          lastLog = (case mqttErrorThrottle st sn of None \<Rightarrow> 0 | Some t \<Rightarrow> t)
      in if int now - int lastLog > 60000
         then (sendLog (LogError (name (c_printer c)) err) st)
                \<lparr>mqttErrorThrottle := (mqttErrorThrottle st)(sn \<mapsto> now)\<rparr>
         else st)"

definition onClose :: "client \<Rightarrow> state \<Rightarrow> state" where
  "onClose c st =
     (let sn = serialNumber (c_printer c);
          st1 = st\<lparr>mqttClients := (mqttClients st)(sn := None)\<rparr>;
          st2 = (case printers st1 sn of
                   Some pr \<Rightarrow> st1\<lparr>printers := (printers st1)(sn \<mapsto> pr\<lparr>online := JBool False\<rparr>)\<rparr>
                 | None \<Rightarrow> st1)
      in scheduleReconnect sn st2)"

text \<open>\<open>client.end()\<close>: the client is closing; its \<open>close\<close> event is still to come.\<close>

definition endClient :: "client_id \<Rightarrow> state \<Rightarrow> state" where
  "endClient cid st =
     st\<lparr>clients := map (\<lambda>c. if c_id c = cid then c\<lparr>c_phase := Ending\<rparr> else c) (clients st)\<rparr>"

text \<open>The handlers of the control-plane channel.\<close>

definition announce :: "printer \<Rightarrow> state \<Rightarrow> state" where
  "announce p st =
     (if serialNumber p \<noteq> [] \<and> truthy (ipAddress p) \<and> truthy (accessCode p)
      then connectPrinter p st else st)"

definition printersList :: "printer list \<Rightarrow> state \<Rightarrow> state" where
  "printersList list st =
     fold (\<lambda>p s. announce p (sendLog (LogFromApi (name p) (model p) (serialNumber p)) s))
          list (sendLog (LogCount (length list)) st)"

definition printerAdd :: "printer \<Rightarrow> state \<Rightarrow> state" where
  "printerAdd p st = announce p (sendLog (LogNewPrinter (name p)) st)"

definition printerRemove :: "serial \<Rightarrow> state \<Rightarrow> state" where
  "printerRemove sn st =
     (let st1 = sendLog (LogRemoved sn) st
      in case mqttClients st1 sn of
           Some cid \<Rightarrow>
             (endClient cid st1)
               \<lparr>mqttClients := (mqttClients st1)(sn := None),
                printers := (printers st1)(sn := None)\<rparr>
         | None \<Rightarrow> st1)"

text \<open>
  \<open>executeCommand\<close>. The switch that translates the command and publishes it is the
  parameter \<open>translate\<close>: it runs only with the client the guard has found. The log
  line of the guard lists the keys of \<open>mqttClients\<close>; the model keeps them as a set.
\<close>

definition executeCommand ::
  "(client_id \<Rightarrow> serial \<Rightarrow> command \<Rightarrow> state \<Rightarrow> state) \<Rightarrow> serial \<Rightarrow> command \<Rightarrow> state \<Rightarrow> state" where
  "executeCommand translate sn cmd st =
     (let st1 = sendLog (LogExecuteCommand sn cmd) st
      in case mqttClients st1 sn of
           None \<Rightarrow> sendLog (LogNoClient sn (dom (mqttClients st1))) st1
         | Some cid \<Rightarrow> translate cid sn cmd st1)"

text \<open>
  The print-control cases of the switch (\<open>pause\<close>, \<open>resume\<close>, \<open>stop\<close>) with the
  publish that follows the switch, for use where a concrete translator is needed; the
  other cases of the switch are not part of it.
\<close>

definition cmdType :: "command \<Rightarrow> jsval" where
  "cmdType cmd =
     (case cmd of
        CmdString s \<Rightarrow> JStr s
      | CmdObject kvs \<Rightarrow> (case map_of kvs ''type'' of Some v \<Rightarrow> v | None \<Rightarrow> JUndefined))"

definition translateControl :: "client_id \<Rightarrow> serial \<Rightarrow> command \<Rightarrow> state \<Rightarrow> state" where
  "translateControl cid sn cmd st =
     (let topic = ''device/'' @ sn @ ''/request''
      in case cmdType cmd of
           JStr c \<Rightarrow>
             if c = ''pause'' \<or> c = ''resume'' \<or> c = ''stop''
             then (sendLog (LogPublish topic) st)
                    \<lparr>published := published st @ [(cid, topic, PrintCommand c)]\<rparr>
             else st
         | _ \<Rightarrow> st)"

subsection \<open>Events\<close>

text \<open>
  What the runtime can deliver: events of the control-plane channel, events of a client
  that exists, the expiry of a timer that is pending. A client's \<open>connect\<close> comes while
  it is connecting; its \<open>close\<close> ends its life; a fired timer is no longer pending.
\<close>

datatype event =
    PrintersList "printer list"
  | PrinterAdd printer
  | PrinterRemove serial
  | ClientConnect client_id
  | ClientClose client_id
  | TimerFire timer_id

definition getClient :: "state \<Rightarrow> client_id \<Rightarrow> client option" where
  "getClient st cid = find (\<lambda>c. c_id c = cid) (clients st)"

definition getTimer :: "state \<Rightarrow> timer_id \<Rightarrow> timer option" where
  "getTimer st tid = find (\<lambda>t. t_id t = tid) (timers st)"

fun step :: "state \<Rightarrow> event \<Rightarrow> state" where
  "step st (PrintersList list) = printersList list st"
| "step st (PrinterAdd p) = printerAdd p st"
| "step st (PrinterRemove sn) = printerRemove sn st"
| "step st (ClientConnect cid) =
     (case getClient st cid of
        Some c \<Rightarrow>
          if c_phase c = Connecting
          then onConnect c
                 (st\<lparr>clients := map (\<lambda>x. if c_id x = cid then x\<lparr>c_phase := Connected\<rparr> else x)
                                    (clients st)\<rparr>)
          else st
      | None \<Rightarrow> st)"
| "step st (ClientClose cid) =
     (case getClient st cid of
        Some c \<Rightarrow> onClose c (st\<lparr>clients := filter (\<lambda>x. c_id x \<noteq> cid) (clients st)\<rparr>)
      | None \<Rightarrow> st)"
| "step st (TimerFire tid) =
     (case getTimer st tid of
        Some tm \<Rightarrow> reconnectTimeout tm (clearTimeout tid st)
      | None \<Rightarrow> st)"

definition run :: "state \<Rightarrow> event list \<Rightarrow> state" where
  "run st evs = foldl step st evs"

text \<open>The sessions of a serial that are connecting or connected, and its pending timers.\<close>

definition sessions :: "state \<Rightarrow> serial \<Rightarrow> client list" where
  "sessions st sn =
     filter (\<lambda>c. serialNumber (c_printer c) = sn \<and> c_phase c \<noteq> Ending) (clients st)"

definition pendingTimers :: "state \<Rightarrow> serial \<Rightarrow> timer list" where
  "pendingTimers st sn = filter (\<lambda>t. t_serial t = sn) (timers st)"

text \<open>
  The invariant behind the guard of \<open>executeCommand\<close>: a client in \<open>mqttClients\<close> is
  a connected client of that serial, and clients have distinct identities.
\<close>

definition registered_live :: "state \<Rightarrow> bool" where
  "registered_live st =
     ((\<forall>sn cid. mqttClients st sn = Some cid \<longrightarrow>
         (\<exists>c\<in>set (clients st). c_id c = cid \<and> serialNumber (c_printer c) = sn
                                 \<and> c_phase c = Connected))
      \<and> distinct (map c_id (clients st))
      \<and> (\<forall>c\<in>set (clients st). c_id c < nextId st))"

text \<open>A printer as the control plane announces it, for concrete runs.\<close>

definition samplePrinter :: printer where
  "samplePrinter =
     \<lparr>pid = JNum (Fin 1), name = JStr ''P1S'', model = Some ''P1S'', serialNumber = ''S1'',
      ipAddress = JStr ''10.0.0.2'', accessCode = JStr ''12345678''\<rparr>"

section \<open>JPEG stream client\<close>

type_synonym byte = "8 word"

definition JPEG_START :: "byte list" where
  "JPEG_START = [0xFF, 0xD8]"

definition JPEG_END :: "byte list" where
  "JPEG_END = [0xFF, 0xD9]"

text \<open>
  \<open>Buffer.indexOf(value, byteOffset)\<close>: the index of the first occurrence of the bytes
  \<open>value\<close> that starts at or after \<open>byteOffset\<close>; \<open>None\<close> is the result \<open>-1\<close>.
\<close>

fun find_at :: "byte list \<Rightarrow> byte list \<Rightarrow> nat \<Rightarrow> nat option" where
  "find_at pat [] i = (if pat = [] then Some i else None)"
| "find_at pat (b # bs) i =
     (if take (length pat) (b # bs) = pat then Some i else find_at pat bs (Suc i))"

definition indexOf :: "byte list \<Rightarrow> byte list \<Rightarrow> nat \<Rightarrow> nat option" where
  "indexOf buf pat byteOffset = find_at pat (drop byteOffset buf) byteOffset"

text \<open>
  The stream data of one camera: the receive buffer, the cached last frame, the frame
  counter (\<open>frameCount || 0\<close>), the attached viewer responses, and what has been
  written to them and to the log. \<open>now\<close> is the reading of \<open>Date.now()\<close>.
\<close>

record stream =
  buffer :: "byte list"
  lastFrame :: "byte list option"
  lastFrameTime :: nat
  frameCount :: nat
  viewers :: "nat list"
  sent :: "(nat \<times> byte list) list"
  frameLogs :: "nat list"

definition sendJpegFrame :: "nat \<Rightarrow> byte list \<Rightarrow> stream \<Rightarrow> stream" where
  "sendJpegFrame res frameData sd = sd\<lparr>sent := sent sd @ [(res, frameData)]\<rparr>"

definition emitFrame :: "nat \<Rightarrow> byte list \<Rightarrow> stream \<Rightarrow> stream" where
  "emitFrame now jpegData sd =
     (let sd1 = sd\<lparr>lastFrame := Some jpegData, lastFrameTime := now,
                   frameCount := frameCount sd + 1\<rparr>;
          sd2 = (if frameCount sd1 mod 10 = 1
                 then sd1\<lparr>frameLogs := frameLogs sd1 @ [length jpegData]\<rparr> else sd1)
      in fold (\<lambda>res. sendJpegFrame res jpegData) (viewers sd2) sd2)"

text \<open>
  The loop of \<open>processJpegBuffer\<close>. Every round that goes on has consumed at least the
  four bytes of the two markers, so the loop ends.
\<close>

function processJpegBuffer :: "nat \<Rightarrow> stream \<Rightarrow> stream" where
  "processJpegBuffer now sd =
     (case indexOf (buffer sd) JPEG_START 0 of
        None \<Rightarrow> sd\<lparr>buffer := []\<rparr>
      | Some startIdx \<Rightarrow>
          (let sd1 = (if startIdx > 0 then sd\<lparr>buffer := drop startIdx (buffer sd)\<rparr> else sd)
           in case indexOf (buffer sd1) JPEG_END 2 of
                None \<Rightarrow> sd1
              | Some endIdx \<Rightarrow>
                  (let jpegData = take (endIdx + 2) (buffer sd1);
                       sd2 = sd1\<lparr>buffer := drop (endIdx + 2) (buffer sd1)\<rparr>
                   in processJpegBuffer now
                        (if length jpegData > 100 then emitFrame now jpegData sd2 else sd2))))"
  by pat_completeness auto
termination
proof (relation "measure (\<lambda>(now, sd). length (buffer sd))")
  show "wf (measure (\<lambda>(now, sd). length (buffer sd)))" by simp
next
  fix now :: nat and sd :: stream and startIdx sd1 endIdx jpegData sd2
  assume sd1: "sd1 = (if 0 < startIdx then sd\<lparr>buffer := drop startIdx (buffer sd)\<rparr> else sd)"
    and e: "indexOf (buffer sd1) JPEG_END 2 = Some endIdx"
    and sd2: "sd2 = sd1\<lparr>buffer := drop (endIdx + 2) (buffer sd1)\<rparr>"
    and j: "jpegData = take (endIdx + 2) (buffer sd1)"
  have bound: "\<And>pat buf i k. find_at pat buf i = Some k \<Longrightarrow> i \<le> k \<and> k + length pat \<le> i + length buf"
  proof -
    fix pat buf i k
    show "find_at pat buf i = Some k \<Longrightarrow> i \<le> k \<and> k + length pat \<le> i + length buf"
    proof (induction buf arbitrary: i)
      case Nil
      then show ?case by (simp split: if_splits)
    next
      case (Cons b bs)
      show ?case
      proof (cases "take (length pat) (b # bs) = pat")
        case True
        then have "length pat = min (length (b # bs)) (length pat)"
          by (metis length_take)
        then have "length pat \<le> length (b # bs)"
          by linarith
        with True Cons.prems show ?thesis by simp
      next
        case False
        with Cons.prems have "find_at pat bs (Suc i) = Some k" by simp
        from Cons.IH [OF this] show ?thesis by simp
      qed
    qed
  qed
  have fb: "\<And>res f s. buffer (sendJpegFrame res f s) = buffer s"
    by (simp add: sendJpegFrame_def)
  have fold_buf: "\<And>vs f s. buffer (fold (\<lambda>res. sendJpegFrame res f) vs s) = buffer s"
  proof -
    fix vs f s show "buffer (fold (\<lambda>res. sendJpegFrame res f) vs s) = buffer s"
      by (induction vs arbitrary: s) (simp_all add: fb)
  qed
  have eb: "buffer (emitFrame now jpegData sd2) = buffer sd2"
    by (simp add: emitFrame_def Let_def fold_buf)
  from e have "2 \<le> endIdx \<and> endIdx + length JPEG_END \<le> 2 + length (drop 2 (buffer sd1))"
    unfolding indexOf_def by (rule bound)
  then have le: "endIdx + 2 \<le> length (buffer sd1)"
    by (simp add: JPEG_END_def) linarith
  have "length (buffer sd1) \<le> length (buffer sd)"
    by (simp add: sd1)
  with le have "length (buffer sd2) < length (buffer sd)"
    by (simp add: sd2)
  then show "((now, if 100 < length jpegData then emitFrame now jpegData sd2 else sd2), now, sd)
             \<in> measure (\<lambda>(now, sd). length (buffer sd))"
    by (simp add: eb)
qed


declare processJpegBuffer.simps [simp del]

text \<open>
  A complete frame: longer than 100 bytes, from a start marker to an end marker.
\<close>

definition isFrame :: "byte list \<Rightarrow> bool" where
  "isFrame f =
     (100 < length f \<and> take 2 f = JPEG_START \<and> drop (length f - 2) f = JPEG_END)"

text \<open>A receive buffer with noise and two frames of 104 bytes, and one viewer.\<close>

definition noise0 :: "byte list" where
  "noise0 = [0x00, 0xFF, 0x13]"
definition body0 :: "byte list" where
  "body0 = replicate 100 0x22"
definition stream0 :: stream where
  "stream0 = \<lparr>buffer = noise0 @ JPEG_START @ body0 @ JPEG_END @ JPEG_START @ body0 @ JPEG_END,
     lastFrame = None, lastFrameTime = 0, frameCount = 0, viewers = [7], sent = [],
     frameLogs = []\<rparr>"


section \<open>Properties of the packed-temperature decoder\<close>

lemma and_mask16: "(w::32 word) AND 0xFFFF = take_bit 16 w"
  by (simp add: take_bit_eq_mask mask_eq_exp_minus_1)

lemma sint_take16: "sint (take_bit 16 (w::32 word)) = take_bit 16 (uint w)"
  by (rule bit_eqI) (auto simp: bit_sint_iff bit_take_bit_iff bit_uint_iff)

lemma take16_sdrop:
  "take_bit 16 (signed_drop_bit 16 (w::32 word)) = take_bit 16 (drop_bit 16 w)"
  by (rule bit_word_eqI) (auto simp: bit_take_bit_iff bit_signed_drop_bit_iff bit_drop_bit_eq)

lemma uint_woi_low: "take_bit 16 (uint (word_of_int v :: 32 word)) = take_bit 16 v"
  by (rule bit_eqI) (auto simp: bit_take_bit_iff bit_uint_iff bit_word_of_int_iff)

lemma uint_woi_high:
  "take_bit 16 (uint (drop_bit 16 (word_of_int v :: 32 word))) = take_bit 16 (drop_bit 16 v)"
  by (rule bit_eqI)
     (auto simp: bit_take_bit_iff bit_uint_iff bit_word_of_int_iff bit_drop_bit_eq)

lemma current_word: "sint ((w :: 32 word) AND 0xFFFF) = take_bit 16 (uint w)"
  by (simp only: and_mask16 sint_take16)

lemma target_word:
  "take_bit 16 (uint (signed_drop_bit 16 (w :: 32 word))) = take_bit 16 (uint (drop_bit 16 w))"
  by (rule bit_eqI)
     (auto simp: bit_take_bit_iff bit_uint_iff bit_signed_drop_bit_iff bit_drop_bit_eq)

lemma truncate_rat_of_int: "truncate_rat (of_int v) = v"
  by (simp add: truncate_rat_def)

lemma int_and_mask16: "(v::int) AND 0xFFFF = take_bit 16 v"
  by (simp add: take_bit_eq_mask mask_eq_exp_minus_1)

lemma decodeTemp_num:
  assumes "n \<noteq> Fin 0"
  shows "decodeTemp (NNum n) =
     \<lparr>current = take_bit 16 (uint (toInt32 n)),
      target = take_bit 16 (uint (drop_bit 16 (toInt32 n)))\<rparr>"
  using assms by (simp add: decodeTemp_def current_word target_word)

lemma decodeTemp_of_int:
  "decodeTemp (NNum (Fin (of_int v))) =
     \<lparr>current = take_bit 16 v, target = take_bit 16 (drop_bit 16 v)\<rparr>"
proof (cases "v = 0")
  case True
  then show ?thesis by (simp add: decodeTemp_def)
next
  case False
  then have "Fin (of_int v) \<noteq> Fin 0" by simp
  from decodeTemp_num [OF this] show ?thesis
    by (simp only: toInt32.simps truncate_rat_of_int uint_woi_low uint_woi_high)
qed

lemma pack_low:
  assumes "0 \<le> c" "c \<le> 65535"
  shows "take_bit 16 (push_bit 16 t OR c) = (c::int)"
proof -
  have "take_bit 16 c = c" using assms by (simp add: take_bit_int_eq_self)
  then show ?thesis by (simp add: take_bit_push_bit)
qed

lemma pack_high:
  assumes "0 \<le> c" "c \<le> 65535" "0 \<le> t" "t \<le> 65535"
  shows "take_bit 16 (drop_bit 16 (push_bit 16 t OR c)) = (t::int)"
proof -
  have "take_bit 16 t = t" using assms by (simp add: take_bit_int_eq_self)
  moreover have "drop_bit 16 c = 0" using assms by (simp add: drop_bit_eq_div)
  ultimately show ?thesis by (simp add: drop_bit_push_bit)
qed

lemma decodeTemp_signed:
  "decodeTemp (NNum (Fin (of_int (sint (word_of_int v :: 32 word))))) =
   decodeTemp (NNum (Fin (of_int v)))"
proof -
  have "take_bit 16 (sint (word_of_int v :: 32 word)) = take_bit 16 v"
    by (rule bit_eqI) (auto simp: bit_take_bit_iff bit_sint_iff bit_word_of_int_iff)
  moreover
  have "take_bit 16 (drop_bit 16 (sint (word_of_int v :: 32 word))) = take_bit 16 (drop_bit 16 v)"
    by (rule bit_eqI)
       (auto simp: bit_take_bit_iff bit_drop_bit_eq bit_sint_iff bit_word_of_int_iff)
  ultimately show ?thesis
    by (simp only: decodeTemp_of_int)
qed

lemma decodeTemp_bounds:
  "0 \<le> current (decodeTemp x) \<and> current (decodeTemp x) \<le> 65535
   \<and> 0 \<le> target (decodeTemp x) \<and> target (decodeTemp x) \<le> 65535"
proof -
  have tb: "\<And>k::int. 0 \<le> take_bit 16 k \<and> take_bit 16 k \<le> 65535"
  proof -
    fix k :: int
    have "take_bit 16 k < 2 ^ 16" by (rule take_bit_int_less_exp)
    then show "0 \<le> take_bit 16 k \<and> take_bit 16 k \<le> 65535" by simp
  qed
  show ?thesis
    by (cases x) (simp_all add: decodeTemp_def current_word tb)
qed


text \<open>
  C5: the decoder gives \<open>current = v & 0xFFFF\<close> and \<open>target = (v >> 16) & 0xFFFF\<close> for an
  encoded integer \<open>v\<close>, gives \<open>{current: 0, target: 0}\<close> for 0, a missing value and
  \<open>null\<close>, and returns \<open>(current, target)\<close> from \<open>(target << 16) | current\<close> for all
  \<open>current\<close> and \<open>target\<close> in [0, 65535], whether the 32-bit value is read unsigned or
  signed.
\<close>

theorem decodeTemp_roundtrip:
  fixes v c t :: int
  shows "decodeTemp NUndefined = \<lparr>current = 0, target = 0\<rparr>
       \<and> decodeTemp NNull = \<lparr>current = 0, target = 0\<rparr>
       \<and> decodeTemp (NNum (Fin 0)) = \<lparr>current = 0, target = 0\<rparr>
       \<and> decodeTemp (NNum (Fin (of_int v))) =
           \<lparr>current = v AND 0xFFFF, target = drop_bit 16 v AND 0xFFFF\<rparr>
       \<and> (0 \<le> c \<and> c \<le> 65535 \<and> 0 \<le> t \<and> t \<le> 65535 \<longrightarrow>
            decodeTemp (NNum (Fin (of_int (push_bit 16 t OR c)))) = \<lparr>current = c, target = t\<rparr>
          \<and> decodeTemp (NNum (Fin (of_int (sint (word_of_int (push_bit 16 t OR c) :: 32 word)))))
              = \<lparr>current = c, target = t\<rparr>)"
proof -
  have a: "decodeTemp NUndefined = \<lparr>current = 0, target = 0\<rparr>"
    and b: "decodeTemp NNull = \<lparr>current = 0, target = 0\<rparr>"
    and z: "decodeTemp (NNum (Fin 0)) = \<lparr>current = 0, target = 0\<rparr>"
    by (simp_all add: decodeTemp_def)
  have g: "decodeTemp (NNum (Fin (of_int v))) =
           \<lparr>current = v AND 0xFFFF, target = drop_bit 16 v AND 0xFFFF\<rparr>"
    by (simp only: decodeTemp_of_int int_and_mask16)
  have r: "decodeTemp (NNum (Fin (of_int (push_bit 16 t OR c)))) = \<lparr>current = c, target = t\<rparr>"
    if "0 \<le> c \<and> c \<le> 65535 \<and> 0 \<le> t \<and> t \<le> 65535"
    using that by (simp only: decodeTemp_of_int pack_low pack_high)
  show ?thesis
    using a b z g r by (simp only: decodeTemp_signed) blast
qed

theorem decodeTemp_roundtrip_witness:
  "decodeTemp (NNum (Fin 14745750)) = \<lparr>current = 150, target = 225\<rparr>"
proof -
  have "(0::int) \<le> 150 \<and> (150::int) \<le> 65535 \<and> (0::int) \<le> 225 \<and> (225::int) \<le> 65535"
    by simp
  with decodeTemp_roundtrip [of 0 150 225]
  have "decodeTemp (NNum (Fin (of_int (push_bit 16 225 OR 150)))) = \<lparr>current = 150, target = 225\<rparr>"
    by blast
  then show ?thesis by simp
qed


section \<open>Properties of the telemetry merge\<close>

lemma mergePrint_sel:
  "descriptor (mergePrint B e p d) = descriptor (cleanUp e p)"
  "online (mergePrint B e p d) =
     (JBool True)"
  "gcodeState (mergePrint B e p d) =
     (coalesce (coalesce (gcode_state p) (gcodeState (cleanUp e p))) (JStr ''IDLE''))"
  "printProgress (mergePrint B e p d) =
     (coalesce (coalesce (mc_percent p) (printProgress (cleanUp e p))) zero)"
  "remainingTime (mergePrint B e p d) =
     (coalesce (coalesce (mc_remaining_time p) (remainingTime (cleanUp e p))) zero)"
  "currentFile (mergePrint B e p d) =
     (or_else (or_else (or_else (gcode_file p) (subtask_name p)) (currentFile (cleanUp e p))) (JStr []))"
  "layer (mergePrint B e p d) =
     (coalesce (coalesce (layer_num p) (layer (cleanUp e p))) zero)"
  "totalLayers (mergePrint B e p d) =
     (coalesce (coalesce (total_layer_num p) (totalLayers (cleanUp e p))) zero)"
  "nozzleTemp (mergePrint B e p d) =
     (nozzle1Temp (nozzleTemps (isH2 e) (cleanUp e p) p))"
  "nozzleTargetTemp (mergePrint B e p d) =
     (nozzle1Target (nozzleTemps (isH2 e) (cleanUp e p) p))"
  "nozzleTemp2 (mergePrint B e p d) =
     (nozzle2Temp (nozzleTemps (isH2 e) (cleanUp e p) p))"
  "nozzleTargetTemp2 (mergePrint B e p d) =
     (nozzle2Target (nozzleTemps (isH2 e) (cleanUp e p) p))"
  "bedTemp (mergePrint B e p d) =
     (coalesce (coalesce (bed_temper p) (bedTemp (cleanUp e p))) zero)"
  "bedTargetTemp (mergePrint B e p d) =
     (coalesce (coalesce (bed_target_temper p) (bedTargetTemp (cleanUp e p))) zero)"
  "chamberTemp (mergePrint B e p d) =
     (coalesce (coalesce (coalesce (chamber_temper p) (if isH2 e then info_temp p else JUndefined)) (chamberTemp (cleanUp e p))) zero)"
  "partFan (mergePrint B e p d) =
     (coalesce (cooling_fan_speed p) (partFan (cleanUp e p)))"
  "auxFan (mergePrint B e p d) =
     (coalesce (big_fan1_speed p) (auxFan (cleanUp e p)))"
  "chamberFan (mergePrint B e p d) =
     (coalesce (big_fan2_speed p) (chamberFan (cleanUp e p)))"
  "chamberLight (mergePrint B e p d) =
     ((case lights_report p of Some ls \<Rightarrow> JBool (find_mode ls ''chamber_light'' = JStr ''on'') | None \<Rightarrow> chamberLight (cleanUp e p)))"
  "workLight (mergePrint B e p d) =
     ((case lights_report p of Some ls \<Rightarrow> JBool (find_mode ls ''chamber_light'' = JStr ''on'' \<or> find_mode ls ''chamber_light2'' = JStr ''on'' \<or> find_mode ls ''work_light'' = JStr ''on'') | None \<Rightarrow> workLight (cleanUp e p)))"
  "speedLevel (mergePrint B e p d) =
     (coalesce (spd_lvl p) (speedLevel (cleanUp e p)))"
  "speedMagnitude (mergePrint B e p d) =
     (coalesce (spd_mag p) (speedMagnitude (cleanUp e p)))"
  "ams (mergePrint B e p d) =
     ((case (parseAms B e p) of Some a \<Rightarrow> Some a | None \<Rightarrow> ams (cleanUp e p)))"
  "externalSpool (mergePrint B e p d) =
     ((case (parseSpools B p) of x # _ \<Rightarrow> Some x | [] \<Rightarrow> externalSpool (cleanUp e p)))"
  "externalSpools (mergePrint B e p d) =
     ((if (parseSpools B p) \<noteq> [] then Some (parseSpools B p) else externalSpools (cleanUp e p)))"
  "wifiSignal (mergePrint B e p d) =
     (coalesce (wifi_signal p) (wifiSignal (cleanUp e p)))"
  "printType (mergePrint B e p d) =
     (coalesce (print_type p) (printType (cleanUp e p)))"
  "printError (mergePrint B e p d) =
     (coalesce (coalesce (print_error p) (printError (cleanUp e p))) zero)"
  "printErrorCode (mergePrint B e p d) =
     (coalesce (coalesce (mc_print_error_code p) (printErrorCode (cleanUp e p))) (JStr []))"
  "printStage (mergePrint B e p d) =
     (coalesce (mc_print_stage p) (printStage (cleanUp e p)))"
  "hms (mergePrint B e p d) =
     ((case p_hms p of Some h \<Rightarrow> Some h | None \<Rightarrow> Some (case hms (cleanUp e p) of None \<Rightarrow> [] | Some h \<Rightarrow> h)))"
  "h2debug (mergePrint B e p d) =
     ((if isH2 e then Some d else None))"
  by (simp_all add: mergePrint_def Let_def)

lemma cleanUp_sel:
  "descriptor (cleanUp e p) = descriptor e"
  "online (cleanUp e p) = online e"
  "gcodeState (cleanUp e p) = gcodeState e"
  "currentFile (cleanUp e p) = currentFile e"
  "layer (cleanUp e p) = layer e"
  "totalLayers (cleanUp e p) = totalLayers e"
  "partFan (cleanUp e p) = partFan e"
  "auxFan (cleanUp e p) = auxFan e"
  "chamberFan (cleanUp e p) = chamberFan e"
  "chamberLight (cleanUp e p) = chamberLight e"
  "workLight (cleanUp e p) = workLight e"
  "speedLevel (cleanUp e p) = speedLevel e"
  "speedMagnitude (cleanUp e p) = speedMagnitude e"
  "ams (cleanUp e p) = ams e"
  "externalSpool (cleanUp e p) = externalSpool e"
  "externalSpools (cleanUp e p) = externalSpools e"
  "wifiSignal (cleanUp e p) = wifiSignal e"
  "printType (cleanUp e p) = printType e"
  "printStage (cleanUp e p) = printStage e"
  "h2debug (cleanUp e p) = h2debug e"
  "printProgress (cleanUp e p) = (if nowIdle (currentState e p) then zero else printProgress e)"
  "remainingTime (cleanUp e p) = (if nowIdle (currentState e p) then zero else remainingTime e)"
  "nozzleTargetTemp (cleanUp e p) = (if nowIdle (currentState e p) then zero else nozzleTargetTemp e)"
  "nozzleTargetTemp2 (cleanUp e p) = (if nowIdle (currentState e p) then zero else nozzleTargetTemp2 e)"
  "bedTargetTemp (cleanUp e p) = (if nowIdle (currentState e p) then zero else bedTargetTemp e)"
  "hms (cleanUp e p) = (if nowIdle (currentState e p) then Some [] else hms e)"
  "printError (cleanUp e p) =
     (if nowIdle (currentState e p) \<and> noActiveError p then zero else printError e)"
  "printErrorCode (cleanUp e p) =
     (if nowIdle (currentState e p) \<and> noActiveError p then JStr [] else printErrorCode e)"
  "nozzleTemp (cleanUp e p) =
     (if wasPrinting (gcodeState e) \<and> nowIdle (currentState e p) then zero else nozzleTemp e)"
  "bedTemp (cleanUp e p) =
     (if wasPrinting (gcodeState e) \<and> nowIdle (currentState e p) then zero else bedTemp e)"
  "chamberTemp (cleanUp e p) =
     (if wasPrinting (gcodeState e) \<and> nowIdle (currentState e p) then zero else chamberTemp e)"
  "nozzleTemp2 (cleanUp e p) =
     (if wasPrinting (gcodeState e) \<and> nowIdle (currentState e p) then JUndefined
      else nozzleTemp2 e)"
  by (simp_all add: cleanUp_def staleDataFix_def transitionReset_def Let_def)

lemma coalesce_again: "coalesce a (coalesce (coalesce a b) c) = coalesce (coalesce a b) c"
  by (simp add: coalesce_def)

lemma coalesce_again2: "coalesce (coalesce a (coalesce a b)) c = coalesce (coalesce a b) c"
  by (simp add: coalesce_def)

lemma coalesce_assoc_idem: "coalesce (coalesce a b) b = coalesce a b"
  by (simp add: coalesce_def)

lemma gcodeState_not_nullish:
  "\<not> nullish (coalesce (coalesce a b) (JStr s))"
  by (simp add: coalesce_def nullish_def)

lemma same_state_current:
  assumes "gcodeState (mergePrint B e p d) = gcodeState e"
  shows "currentState e p = gcodeState e" and "\<not> nullish (gcodeState e)"
proof -
  from assms have g: "coalesce (coalesce (gcode_state p) (gcodeState e)) (JStr ''IDLE'') = gcodeState e"
    by (simp add: mergePrint_sel cleanUp_sel)
  then show "\<not> nullish (gcodeState e)"
    by (metis gcodeState_not_nullish)
  from g show "currentState e p = gcodeState e"
    by (auto simp: currentState_def coalesce_def split: if_splits)
qed

lemma no_transition: "\<not> (wasPrinting g \<and> nowIdle g)"
  by (auto simp: wasPrinting_def nowIdle_def)


lemma coalesce_P1: "coalesce (coalesce a (coalesce (coalesce a b) z)) z = coalesce (coalesce a b) z"
  by (simp add: coalesce_def)

lemma coalesce_P2: "coalesce a (coalesce a b) = coalesce a b"
  by (simp add: coalesce_def)

lemma coalesce_P3: "coalesce (coalesce a zero) zero = coalesce a zero"
  by (simp add: coalesce_def)

lemma coalesce_P4: "coalesce (coalesce (coalesce a b) z) z = coalesce (coalesce a b) z"
  by (simp add: coalesce_def)

lemma or_else_P1:
  "or_else (or_else (or_else a b) (or_else (or_else (or_else a b) c) s)) s
   = or_else (or_else (or_else a b) c) s"
  by (simp add: or_else_def)

lemma nozzle_cases:
  obtains (one) l where "device_extruder_info p = Some [l]"
    | (two) l r rest where "device_extruder_info p = Some (l # r # rest)"
    | (fallback) l r rest where "device_extruder_info p = None \<or> device_extruder_info p = Some []"
        and "extruder_info p = Some (l # r # rest)"
    | (legacy) "noPacked p"
proof (cases "device_extruder_info p")
  case None
  show ?thesis
  proof (cases "extruder_info p")
    case n: None
    with None have "noPacked p" by (simp add: noPacked_def)
    then show ?thesis by (rule legacy)
  next
    case (Some xs)
    show ?thesis
    proof (cases xs)
      case Nil
      with None Some have "noPacked p" by (simp add: noPacked_def)
      then show ?thesis by (rule legacy)
    next
      case (Cons l ys)
      show ?thesis
      proof (cases ys)
        case Nil
        with None Some Cons have "noPacked p" by (simp add: noPacked_def)
        then show ?thesis by (rule legacy)
      next
        case c2: (Cons r rest)
        with None Some Cons show ?thesis by (intro fallback) simp_all
      qed
    qed
  qed
next
  case (Some ds)
  show ?thesis
  proof (cases ds)
    case Nil
    show ?thesis
    proof (cases "extruder_info p")
      case n: None
      with Nil Some have "noPacked p" by (simp add: noPacked_def)
      then show ?thesis by (rule legacy)
    next
      case s2: (Some xs)
      show ?thesis
      proof (cases xs)
        case n2: Nil
        with Nil Some s2 have "noPacked p" by (simp add: noPacked_def)
        then show ?thesis by (rule legacy)
      next
        case (Cons l ys)
        show ?thesis
        proof (cases ys)
          case n3: Nil
          with Nil Some s2 Cons have "noPacked p" by (simp add: noPacked_def)
          then show ?thesis by (rule legacy)
        next
          case c2: (Cons r rest)
          with Nil Some s2 Cons show ?thesis by (intro fallback) simp_all
        qed
      qed
    qed
  next
    case (Cons l ys)
    show ?thesis
    proof (cases ys)
      case Nil
      with Some Cons show ?thesis by (intro one) simp
    next
      case c2: (Cons r rest)
      with Some Cons show ?thesis by (intro two) simp
    qed
  qed
qed

lemma nozzleTemps_legacy:
  assumes "noPacked p"
  shows "nozzleTemps h e p =
     \<lparr>nozzle1Temp = (if h then coalesce (nozzleTemp e) zero
                      else coalesce (coalesce (nozzle_temper p) (nozzleTemp e)) zero),
      nozzle1Target = (if h then coalesce (nozzleTargetTemp e) zero
                        else coalesce (coalesce (nozzle_target_temper p) (nozzleTargetTemp e)) zero),
      nozzle2Temp = (if h then nozzleTemp2 e else coalesce (nozzle_temper_2 p) (nozzleTemp2 e)),
      nozzle2Target = (if h then nozzleTargetTemp2 e
                        else coalesce (nozzle_target_temper_2 p) (nozzleTargetTemp2 e))\<rparr>"
  using assms
  by (simp add: noPacked_def nozzleTemps_def Let_def split: option.splits list.splits)

lemma nozzleTemps_one:
  assumes "device_extruder_info p = Some [l]"
  shows "nozzleTemps h e p =
     \<lparr>nozzle1Temp = num_of_int (current (decodeTemp l)),
      nozzle1Target = num_of_int (target (decodeTemp l)),
      nozzle2Temp = (if h then nozzleTemp2 e else coalesce (nozzle_temper_2 p) (nozzleTemp2 e)),
      nozzle2Target = (if h then nozzleTargetTemp2 e
                        else coalesce (nozzle_target_temper_2 p) (nozzleTargetTemp2 e))\<rparr>"
  using assms by (simp add: nozzleTemps_def Let_def)

lemma nozzleTemps_two:
  assumes "device_extruder_info p = Some (l # r # rest)"
  shows "nozzleTemps h e p =
     \<lparr>nozzle1Temp = num_of_int (current (decodeTemp l)),
      nozzle1Target = num_of_int (target (decodeTemp l)),
      nozzle2Temp = num_of_int (current (decodeTemp r)),
      nozzle2Target = num_of_int (target (decodeTemp r))\<rparr>"
  using assms by (simp add: nozzleTemps_def Let_def)

lemma nozzleTemps_fallback:
  assumes "device_extruder_info p = None \<or> device_extruder_info p = Some []"
    and "extruder_info p = Some (l # r # rest)"
  shows "nozzleTemps h e p =
     \<lparr>nozzle1Temp = num_of_int (current (decodeTemp l)),
      nozzle1Target = num_of_int (target (decodeTemp l)),
      nozzle2Temp = num_of_int (current (decodeTemp r)),
      nozzle2Target = num_of_int (target (decodeTemp r))\<rparr>"
  using assms by (auto simp: nozzleTemps_def Let_def)

lemma nozzleTemps_again:
  assumes t1: "nozzleTemp e' = nozzle1Temp (nozzleTemps h e p)"
    and t2: "nozzleTemp2 e' = nozzle2Temp (nozzleTemps h e p)"
    and g1: "nozzleTargetTemp e' = nozzle1Target (nozzleTemps h e p)
         \<or> (nozzleTargetTemp e' = zero \<and> nozzleTargetTemp e = zero)"
    and g2: "nozzleTargetTemp2 e' = nozzle2Target (nozzleTemps h e p)
         \<or> (nozzleTargetTemp2 e' = zero \<and> nozzleTargetTemp2 e = zero)"
  shows "nozzleTemps h e' p = nozzleTemps h e p"
proof (cases p rule: nozzle_cases)
  case (one l)
  from t2 g2 show ?thesis
    by (auto simp: nozzleTemps_one [OF one] coalesce_P2)
next
  case (two l r rest)
  show ?thesis by (simp add: nozzleTemps_two [OF two])
next
  case (fallback l r rest)
  show ?thesis by (simp add: nozzleTemps_fallback [OF fallback])
next
  case legacy
  from t1 t2 g1 g2 show ?thesis
    by (auto simp: nozzleTemps_legacy [OF legacy] coalesce_P1 coalesce_P2 coalesce_P3 coalesce_P4)
qed

lemma parseAms_again:
  assumes "ams e' = (case parseAms B e p of Some a \<Rightarrow> Some a | None \<Rightarrow> ams e)"
  shows "parseAms B e' p = parseAms B e p"
proof (cases "p_ams p")
  case None
  then show ?thesis by (simp add: parseAms_def)
next
  case (Some a)
  then obtain X where X: "parseAms B e p = Some X"
    by (simp add: parseAms_def Let_def)
  with assms have e': "ams e' = Some X" by simp
  show ?thesis
  proof (cases "ams_units a")
    case None
    with X Some have "X = \<lparr>as_humidity = coalesce (ams_humidity a) (as_humidity (case ams e of
                            None \<Rightarrow> \<lparr>as_humidity = JUndefined, as_trayNow = JUndefined,
                                      as_units = Some [], as_trays = Some []\<rparr>
                          | Some x \<Rightarrow> x)),
                       as_trayNow = coalesce (tray_now a) (as_trayNow (case ams e of
                            None \<Rightarrow> \<lparr>as_humidity = JUndefined, as_trayNow = JUndefined,
                                      as_units = Some [], as_trays = Some []\<rparr>
                          | Some x \<Rightarrow> x)),
                       as_units = Some (case as_units (case ams e of
                            None \<Rightarrow> \<lparr>as_humidity = JUndefined, as_trayNow = JUndefined,
                                      as_units = Some [], as_trays = Some []\<rparr>
                          | Some x \<Rightarrow> x) of None \<Rightarrow> [] | Some u \<Rightarrow> u),
                       as_trays = Some (case as_trays (case ams e of
                            None \<Rightarrow> \<lparr>as_humidity = JUndefined, as_trayNow = JUndefined,
                                      as_units = Some [], as_trays = Some []\<rparr>
                          | Some x \<Rightarrow> x) of None \<Rightarrow> [] | Some t \<Rightarrow> t)\<rparr>"
      by (simp add: parseAms_def Let_def)
    then have "parseAms B e' p = Some X"
      using Some None e' by (simp add: parseAms_def Let_def coalesce_P2)
    with X show ?thesis by simp
  next
    case (Some us)
    with X \<open>p_ams p = Some a\<close>
    have "as_humidity X = coalesce (ams_humidity a) (as_humidity (case ams e of
                            None \<Rightarrow> \<lparr>as_humidity = JUndefined, as_trayNow = JUndefined,
                                      as_units = Some [], as_trays = Some []\<rparr>
                          | Some x \<Rightarrow> x))"
      and "as_trayNow X = coalesce (tray_now a) (as_trayNow (case ams e of
                            None \<Rightarrow> \<lparr>as_humidity = JUndefined, as_trayNow = JUndefined,
                                      as_units = Some [], as_trays = Some []\<rparr>
                          | Some x \<Rightarrow> x))"
      and "as_units X = Some (map (\<lambda>(unitIdx, u). unitData B unitIdx u) (enumerate 0 us))"
      and "as_trays X = Some (concat (map (\<lambda>(unitIdx, u). unitTrays B unitIdx u) (enumerate 0 us)))"
      by (auto simp: parseAms_def Let_def)
    then have "parseAms B e' p = Some X"
      using Some \<open>p_ams p = Some a\<close> e' by (simp add: parseAms_def Let_def coalesce_P2)
    with X show ?thesis by simp
  qed
qed

lemma idem_core:
  assumes same: "gcodeState (mergePrint B e p d) = gcodeState e"
    and x: "x = chamberTemp e \<or> x = chamberTemp (mergePrint B e p d)"
  shows "mergePrint B ((mergePrint B e p d)\<lparr>chamberTemp := x\<rparr>) p d = mergePrint B e p d"
proof -
  define m where "m = mergePrint B e p d"
  define m' where "m' = m\<lparr>chamberTemp := x\<rparr>"
  note st = same_state_current [OF same]
  have m'f:
    "descriptor m' = descriptor m"
    "online m' = online m"
    "gcodeState m' = gcodeState m"
    "printProgress m' = printProgress m"
    "remainingTime m' = remainingTime m"
    "currentFile m' = currentFile m"
    "layer m' = layer m"
    "totalLayers m' = totalLayers m"
    "nozzleTemp m' = nozzleTemp m"
    "nozzleTargetTemp m' = nozzleTargetTemp m"
    "nozzleTemp2 m' = nozzleTemp2 m"
    "nozzleTargetTemp2 m' = nozzleTargetTemp2 m"
    "bedTemp m' = bedTemp m"
    "bedTargetTemp m' = bedTargetTemp m"
    "partFan m' = partFan m"
    "auxFan m' = auxFan m"
    "chamberFan m' = chamberFan m"
    "chamberLight m' = chamberLight m"
    "workLight m' = workLight m"
    "speedLevel m' = speedLevel m"
    "speedMagnitude m' = speedMagnitude m"
    "ams m' = ams m"
    "externalSpool m' = externalSpool m"
    "externalSpools m' = externalSpools m"
    "wifiSignal m' = wifiSignal m"
    "printType m' = printType m"
    "printError m' = printError m"
    "printErrorCode m' = printErrorCode m"
    "printStage m' = printStage m"
    "hms m' = hms m"
    "h2debug m' = h2debug m"
    by (simp_all add: m'_def)
  have gm: "gcodeState m = gcodeState e"
    using same by (simp add: m_def)
  have gm': "gcodeState m' = gcodeState e"
    by (simp add: m'f gm)
  have gE: "coalesce (coalesce (gcode_state p) (gcodeState e)) (JStr ''IDLE'') = gcodeState e"
    using same by (simp add: mergePrint_sel cleanUp_sel)
  have cs: "currentState e p = gcodeState e"
    by (rule st(1))
  have cs': "currentState m' p = gcodeState e"
    using cs by (simp add: currentState_def gm')
  have nt: "\<not> (wasPrinting (gcodeState e) \<and> nowIdle (gcodeState e))"
    by (rule no_transition)
  have h: "isH2 m' = isH2 e"
    by (simp add: isH2_def m'f m_def mergePrint_sel cleanUp_sel)
  have a: "parseAms B m' p = parseAms B e p"
    by (rule parseAms_again)
       (simp add: m'f m_def mergePrint_sel cleanUp_sel split: option.splits)
  have n: "nozzleTemps (isH2 e) (cleanUp m' p) p = nozzleTemps (isH2 e) (cleanUp e p) p"
    by (rule nozzleTemps_again)
       (simp_all add: cleanUp_sel cs cs' nt gE m'f m_def mergePrint_sel)
  have ct: "chamberTemp m' = chamberTemp e \<or> chamberTemp m' = chamberTemp m"
    using x by (simp add: m'_def m_def)
  have fld: "mergePrint B m' p d = mergePrint B e p d"
  proof (rule entry.equality)
    show "chamberTemp (mergePrint B m' p d) = chamberTemp (mergePrint B e p d)"
      using ct nt
      by (auto simp: mergePrint_sel cleanUp_sel cs cs' gm' gE h m_def
            coalesce_P1 coalesce_P2 coalesce_P4)
  qed (simp_all add: mergePrint_sel cleanUp_sel cs cs' nt gE h a n m'f m_def
         coalesce_P1 coalesce_P2 coalesce_P3 coalesce_P4 or_else_P1
         cong: option.case_cong list.case_cong)
  then show ?thesis
    by (simp add: m'_def m_def)
qed


lemma applyCtc_fields:
  "gcodeState (applyCtc e c) = gcodeState e"
  "descriptor (applyCtc e c) = descriptor e"
  "printErrorCode (applyCtc e c) = printErrorCode e"
  "printError (applyCtc e c) = printError e"
  by (cases c; simp add: applyCtc_def)+

lemma isH2_applyCtc: "isH2 (applyCtc e c) = isH2 e"
  by (simp add: isH2_def applyCtc_fields)

lemma currentState_applyCtc: "currentState (applyCtc e c) p = currentState e p"
  by (simp add: currentState_def applyCtc_fields)

lemma applyCtc_chamber:
  "applyCtc m c = m\<lparr>chamberTemp := chamberTemp (applyCtc m c)\<rparr>"
  by (cases c) (simp_all add: applyCtc_def)

lemma applyCtc_chamber_cases:
  "chamberTemp (applyCtc m c) = chamberTemp (applyCtc e c) \<or> chamberTemp (applyCtc m c) = chamberTemp m"
  by (cases c) (simp_all add: applyCtc_def)

lemma coalesce_zero_zero: "coalesce (coalesce a zero) zero = coalesce a zero"
  by (simp add: coalesce_def)

lemma coalesce_undef: "coalesce a JUndefined = (if nullish a then JUndefined else a)"
  by (simp add: coalesce_def)

text \<open>
  C3, as the code has it. When the resolved lifecycle state is idle or finished, the merge
  clears the cached values before it reads the report: progress, remaining time and bed
  target of the snapshot are the report's own value if it carries one and 0 otherwise,
  the hazard list is the report's list if it carries one and empty otherwise, and
  without a packed extruder array both nozzle targets are 0 on an H2 model and the
  report's own value or 0 on the others. Without an active error the error flag is 0 and
  the error code is the report's or empty; with an active error the flag is the report's
  and the cached code is kept.
\<close>

theorem staleData_idle:
  assumes "print msg = Some p" and "nowIdle (currentState e p)"
  shows "printProgress (telemetryMerge B e msg) = coalesce (mc_percent p) zero
       \<and> remainingTime (telemetryMerge B e msg) = coalesce (mc_remaining_time p) zero
       \<and> bedTargetTemp (telemetryMerge B e msg) = coalesce (bed_target_temper p) zero
       \<and> hms (telemetryMerge B e msg) = Some (case p_hms p of Some h \<Rightarrow> h | None \<Rightarrow> [])
       \<and> (noPacked p \<longrightarrow>
            nozzleTargetTemp (telemetryMerge B e msg)
              = (if isH2 e then zero else coalesce (nozzle_target_temper p) zero)
          \<and> nozzleTargetTemp2 (telemetryMerge B e msg)
              = (if isH2 e then zero else coalesce (nozzle_target_temper_2 p) zero))
       \<and> (noActiveError p \<longrightarrow>
            printError (telemetryMerge B e msg) = zero
          \<and> printErrorCode (telemetryMerge B e msg) = coalesce (mc_print_error_code p) (JStr []))
       \<and> (\<not> noActiveError p \<longrightarrow>
            printError (telemetryMerge B e msg) = print_error p
          \<and> printErrorCode (telemetryMerge B e msg)
              = coalesce (coalesce (mc_print_error_code p) (printErrorCode e)) (JStr []))"
proof -
  define e1 where "e1 = applyCtc e (device_ctc_info_temp p)"
  have tm: "telemetryMerge B e msg = mergePrint B e1 p (dump msg)"
    using assms(1) by (simp add: telemetryMerge_def e1_def)
  have idle: "nowIdle (currentState e1 p)"
    using assms(2) by (simp add: e1_def currentState_applyCtc)
  have h: "isH2 e1 = isH2 e"
    by (simp add: e1_def isH2_applyCtc)
  have ec: "printErrorCode e1 = printErrorCode e"
    by (simp add: e1_def applyCtc_fields)
  have 1: "printProgress (telemetryMerge B e msg) = coalesce (mc_percent p) zero"
    by (simp add: tm mergePrint_sel cleanUp_sel idle coalesce_zero_zero)
  have 2: "remainingTime (telemetryMerge B e msg) = coalesce (mc_remaining_time p) zero"
    by (simp add: tm mergePrint_sel cleanUp_sel idle coalesce_zero_zero)
  have 3: "bedTargetTemp (telemetryMerge B e msg) = coalesce (bed_target_temper p) zero"
    by (simp add: tm mergePrint_sel cleanUp_sel idle coalesce_zero_zero)
  have 4: "hms (telemetryMerge B e msg) = Some (case p_hms p of Some h \<Rightarrow> h | None \<Rightarrow> [])"
    by (simp add: tm mergePrint_sel cleanUp_sel idle split: option.splits)
  have 5: "nozzleTargetTemp (telemetryMerge B e msg)
             = (if isH2 e then zero else coalesce (nozzle_target_temper p) zero)"
    and 6: "nozzleTargetTemp2 (telemetryMerge B e msg)
             = (if isH2 e then zero else coalesce (nozzle_target_temper_2 p) zero)"
    if "noPacked p"
    by (simp_all add: tm mergePrint_sel nozzleTemps_legacy [OF that] cleanUp_sel idle h
          coalesce_zero_zero coalesce_def [of zero])
  have 7: "printError (telemetryMerge B e msg) = zero"
    and 8: "printErrorCode (telemetryMerge B e msg) = coalesce (mc_print_error_code p) (JStr [])"
    if "noActiveError p"
    using that
    by (auto simp: tm mergePrint_sel cleanUp_sel idle noActiveError_def coalesce_def nullish_def
          zero_def)
  have 9: "printError (telemetryMerge B e msg) = print_error p"
    and 10: "printErrorCode (telemetryMerge B e msg)
              = coalesce (coalesce (mc_print_error_code p) (printErrorCode e)) (JStr [])"
    if "\<not> noActiveError p"
    using that
    by (auto simp: tm mergePrint_sel cleanUp_sel idle ec noActiveError_def coalesce_def
          nullish_def)
  from 1 2 3 4 5 6 7 8 9 10 show ?thesis by blast
qed

theorem staleData_idle_witness:
  "printProgress (telemetryMerge nanBuiltins
      (empty_entry\<lparr>gcodeState := JStr ''RUNNING'', printProgress := JNum (Fin 42)\<rparr>)
      (report_msg (empty_report\<lparr>gcode_state := JStr ''IDLE''\<rparr>))) = zero"
proof -
  have 1: "print (report_msg (empty_report\<lparr>gcode_state := JStr ''IDLE''\<rparr>))
             = Some (empty_report\<lparr>gcode_state := JStr ''IDLE''\<rparr>)"
    by (simp add: report_msg_def)
  have 2: "nowIdle (currentState
             (empty_entry\<lparr>gcodeState := JStr ''RUNNING'', printProgress := JNum (Fin 42)\<rparr>)
             (empty_report\<lparr>gcode_state := JStr ''IDLE''\<rparr>))"
    by (simp add: nowIdle_def currentState_def coalesce_def nullish_def empty_report_def)
  from staleData_idle [OF 1 2, of nanBuiltins]
  show ?thesis by (simp add: empty_report_def coalesce_def nullish_def)
qed

theorem staleData_idle_counterexample:
  "nowIdle (currentState
      (empty_entry\<lparr>gcodeState := JStr ''RUNNING'', printProgress := JNum (Fin 99)\<rparr>)
      (empty_report\<lparr>gcode_state := JStr ''FINISH'', mc_percent := JNum (Fin 100)\<rparr>))
   \<and> noActiveError (empty_report\<lparr>gcode_state := JStr ''FINISH'', mc_percent := JNum (Fin 100)\<rparr>)
   \<and> printProgress (telemetryMerge nanBuiltins
        (empty_entry\<lparr>gcodeState := JStr ''RUNNING'', printProgress := JNum (Fin 99)\<rparr>)
        (report_msg (empty_report\<lparr>gcode_state := JStr ''FINISH'', mc_percent := JNum (Fin 100)\<rparr>)))
      = JNum (Fin 100)
   \<and> JNum (Fin 100) \<noteq> zero"
  by (simp add: nowIdle_def currentState_def coalesce_def nullish_def empty_report_def
      noActiveError_def telemetryMerge_def report_msg_def applyCtc_def mergePrint_sel
      cleanUp_sel zero_def)

text \<open>
  C4, as the code has it. When the previous lifecycle state is running, paused or
  preparing and the resolved state is idle or finished, the merge clears the cached
  actual temperatures before it reads the report: bed and chamber temperature of the
  snapshot are the report's own value if it carries one and 0 otherwise, and without a
  packed extruder array the first nozzle is 0 on an H2 model and the report's own value
  or 0 on the others, while the second nozzle is the report's own value or undefined.
\<close>

theorem transition_reset:
  assumes "print msg = Some p" and "wasPrinting (gcodeState e)"
    and "nowIdle (currentState e p)"
  shows "bedTemp (telemetryMerge B e msg) = coalesce (bed_temper p) zero
       \<and> chamberTemp (telemetryMerge B e msg)
           = coalesce (coalesce (chamber_temper p) (if isH2 e then info_temp p else JUndefined)) zero
       \<and> (noPacked p \<longrightarrow>
            nozzleTemp (telemetryMerge B e msg)
              = (if isH2 e then zero else coalesce (nozzle_temper p) zero)
          \<and> nozzleTemp2 (telemetryMerge B e msg)
              = (if isH2 e \<or> nullish (nozzle_temper_2 p) then JUndefined else nozzle_temper_2 p))"
proof -
  define e1 where "e1 = applyCtc e (device_ctc_info_temp p)"
  have tm: "telemetryMerge B e msg = mergePrint B e1 p (dump msg)"
    using assms(1) by (simp add: telemetryMerge_def e1_def)
  have idle: "nowIdle (currentState e1 p)"
    using assms(3) by (simp add: e1_def currentState_applyCtc)
  have was: "wasPrinting (gcodeState e1)"
    using assms(2) by (simp add: e1_def applyCtc_fields)
  have h: "isH2 e1 = isH2 e"
    by (simp add: e1_def isH2_applyCtc)
  have 1: "bedTemp (telemetryMerge B e msg) = coalesce (bed_temper p) zero"
    by (simp add: tm mergePrint_sel cleanUp_sel idle was coalesce_zero_zero)
  have 2: "chamberTemp (telemetryMerge B e msg)
           = coalesce (coalesce (chamber_temper p) (if isH2 e then info_temp p else JUndefined)) zero"
    by (simp add: tm mergePrint_sel cleanUp_sel idle was h coalesce_zero_zero)
  have 3: "nozzleTemp (telemetryMerge B e msg)
              = (if isH2 e then zero else coalesce (nozzle_temper p) zero)"
    and 4: "nozzleTemp2 (telemetryMerge B e msg)
              = (if isH2 e \<or> nullish (nozzle_temper_2 p) then JUndefined else nozzle_temper_2 p)"
    if "noPacked p"
    by (simp_all add: tm mergePrint_sel nozzleTemps_legacy [OF that] cleanUp_sel idle was h
          coalesce_zero_zero coalesce_undef)
       (simp_all add: zero_def nullish_def coalesce_def)
  from 1 2 3 4 show ?thesis by blast
qed

theorem transition_reset_witness:
  "bedTemp (telemetryMerge nanBuiltins
      (empty_entry\<lparr>gcodeState := JStr ''RUNNING'', bedTemp := JNum (Fin 60)\<rparr>)
      (report_msg (empty_report\<lparr>gcode_state := JStr ''FINISH''\<rparr>))) = zero"
proof -
  have 1: "print (report_msg (empty_report\<lparr>gcode_state := JStr ''FINISH''\<rparr>))
             = Some (empty_report\<lparr>gcode_state := JStr ''FINISH''\<rparr>)"
    by (simp add: report_msg_def)
  have 2: "wasPrinting (gcodeState (empty_entry\<lparr>gcodeState := JStr ''RUNNING'',
             bedTemp := JNum (Fin 60)\<rparr>))"
    by (simp add: wasPrinting_def)
  have 3: "nowIdle (currentState
             (empty_entry\<lparr>gcodeState := JStr ''RUNNING'', bedTemp := JNum (Fin 60)\<rparr>)
             (empty_report\<lparr>gcode_state := JStr ''FINISH''\<rparr>))"
    by (simp add: nowIdle_def currentState_def coalesce_def nullish_def empty_report_def)
  from transition_reset [OF 1 2 3, of nanBuiltins]
  show ?thesis by (simp add: empty_report_def coalesce_def nullish_def)
qed

theorem transition_reset_counterexample:
  "wasPrinting (gcodeState (empty_entry\<lparr>gcodeState := JStr ''RUNNING''\<rparr>))
   \<and> nowIdle (currentState (empty_entry\<lparr>gcodeState := JStr ''RUNNING''\<rparr>)
        (empty_report\<lparr>gcode_state := JStr ''IDLE'', nozzle_temper := JNum (Fin 200)\<rparr>))
   \<and> nozzleTemp (telemetryMerge nanBuiltins (empty_entry\<lparr>gcodeState := JStr ''RUNNING''\<rparr>)
        (report_msg (empty_report\<lparr>gcode_state := JStr ''IDLE'', nozzle_temper := JNum (Fin 200)\<rparr>)))
      = JNum (Fin 200)
   \<and> JNum (Fin 200) \<noteq> zero"
  by (simp add: wasPrinting_def nowIdle_def currentState_def coalesce_def nullish_def
      empty_report_def telemetryMerge_def report_msg_def applyCtc_def mergePrint_sel
      cleanUp_sel zero_def isH2_def empty_entry_def nozzleTemps_def)

text \<open>
  C6: when applying a report leaves the lifecycle state of the snapshot as it was,
  applying the same report once more changes nothing.
\<close>

theorem telemetryMerge_idempotent:
  assumes "gcodeState (telemetryMerge B s r) = gcodeState s"
  shows "telemetryMerge B (telemetryMerge B s r) r = telemetryMerge B s r"
proof (cases "print r")
  case None
  then show ?thesis by (simp add: telemetryMerge_def)
next
  case (Some p)
  define c where "c = device_ctc_info_temp p"
  define e where "e = applyCtc s c"
  define m where "m = mergePrint B e p (dump r)"
  have tm: "telemetryMerge B s r = m"
    using Some by (simp add: telemetryMerge_def m_def e_def c_def)
  have same: "gcodeState (mergePrint B e p (dump r)) = gcodeState e"
    using assms by (simp add: tm m_def e_def applyCtc_fields)
  have x: "chamberTemp (applyCtc m c) = chamberTemp e
           \<or> chamberTemp (applyCtc m c) = chamberTemp (mergePrint B e p (dump r))"
    using applyCtc_chamber_cases [of m c s] by (simp add: e_def m_def)
  have "telemetryMerge B m r = mergePrint B (applyCtc m c) p (dump r)"
    using Some by (simp add: telemetryMerge_def c_def)
  also have "applyCtc m c = m\<lparr>chamberTemp := chamberTemp (applyCtc m c)\<rparr>"
    by (rule applyCtc_chamber)
  also have "mergePrint B (m\<lparr>chamberTemp := chamberTemp (applyCtc m c)\<rparr>) p (dump r) = m"
    unfolding m_def by (rule idem_core [OF same x [unfolded m_def]])
  finally show ?thesis by (simp add: tm)
qed

theorem telemetryMerge_idempotent_witness:
  "telemetryMerge nanBuiltins
     (telemetryMerge nanBuiltins (empty_entry\<lparr>gcodeState := JStr ''RUNNING''\<rparr>)
        (report_msg (empty_report\<lparr>mc_percent := JNum (Fin 50)\<rparr>)))
     (report_msg (empty_report\<lparr>mc_percent := JNum (Fin 50)\<rparr>))
   = telemetryMerge nanBuiltins (empty_entry\<lparr>gcodeState := JStr ''RUNNING''\<rparr>)
       (report_msg (empty_report\<lparr>mc_percent := JNum (Fin 50)\<rparr>))"
proof -
  have "gcodeState (telemetryMerge nanBuiltins (empty_entry\<lparr>gcodeState := JStr ''RUNNING''\<rparr>)
          (report_msg (empty_report\<lparr>mc_percent := JNum (Fin 50)\<rparr>)))
        = gcodeState (empty_entry\<lparr>gcodeState := JStr ''RUNNING''\<rparr>)"
    by (simp add: telemetryMerge_def report_msg_def empty_report_def applyCtc_def
        mergePrint_sel cleanUp_sel coalesce_def nullish_def)
  then show ?thesis by (rule telemetryMerge_idempotent)
qed

text \<open>
  C10: for every number, also a negative one, a fraction, not-a-number, an infinity or a
  value of \<open>2^32\<close> and more, and for a missing value and \<open>null\<close>, both decoded components
  are integers in [0, 65535]; and the nozzle temperatures that the merge takes from a
  packed array are exactly these components.
\<close>

theorem decodeTemp_range:
  "(0 \<le> current (decodeTemp x) \<and> current (decodeTemp x) \<le> 65535
    \<and> 0 \<le> target (decodeTemp x) \<and> target (decodeTemp x) \<le> 65535)
   \<and> (print msg = Some p \<and> device_extruder_info p = Some (l # rest) \<longrightarrow>
        nozzleTemp (telemetryMerge B e msg) = num_of_int (current (decodeTemp l))
      \<and> nozzleTargetTemp (telemetryMerge B e msg) = num_of_int (target (decodeTemp l)))
   \<and> (print msg = Some p \<and> device_extruder_info p = Some (l # r # rest') \<longrightarrow>
        nozzleTemp2 (telemetryMerge B e msg) = num_of_int (current (decodeTemp r))
      \<and> nozzleTargetTemp2 (telemetryMerge B e msg) = num_of_int (target (decodeTemp r)))
   \<and> (print msg = Some p
       \<and> (device_extruder_info p = None \<or> device_extruder_info p = Some [])
       \<and> extruder_info p = Some (l # r # rest') \<longrightarrow>
        nozzleTemp (telemetryMerge B e msg) = num_of_int (current (decodeTemp l))
      \<and> nozzleTargetTemp (telemetryMerge B e msg) = num_of_int (target (decodeTemp l))
      \<and> nozzleTemp2 (telemetryMerge B e msg) = num_of_int (current (decodeTemp r))
      \<and> nozzleTargetTemp2 (telemetryMerge B e msg) = num_of_int (target (decodeTemp r)))"
proof -
  have a: "nozzleTemp (telemetryMerge B e msg) = num_of_int (current (decodeTemp l))
         \<and> nozzleTargetTemp (telemetryMerge B e msg) = num_of_int (target (decodeTemp l))"
    if "print msg = Some p" "device_extruder_info p = Some (l # rest)"
    using that
    by (cases rest) (simp_all add: telemetryMerge_def mergePrint_sel nozzleTemps_def Let_def)
  have b: "nozzleTemp2 (telemetryMerge B e msg) = num_of_int (current (decodeTemp r))
         \<and> nozzleTargetTemp2 (telemetryMerge B e msg) = num_of_int (target (decodeTemp r))"
    if "print msg = Some p" "device_extruder_info p = Some (l # r # rest')"
    using that
    by (simp add: telemetryMerge_def mergePrint_sel nozzleTemps_two)
  have c: "nozzleTemp (telemetryMerge B e msg) = num_of_int (current (decodeTemp l))
      \<and> nozzleTargetTemp (telemetryMerge B e msg) = num_of_int (target (decodeTemp l))
      \<and> nozzleTemp2 (telemetryMerge B e msg) = num_of_int (current (decodeTemp r))
      \<and> nozzleTargetTemp2 (telemetryMerge B e msg) = num_of_int (target (decodeTemp r))"
    if "print msg = Some p" "device_extruder_info p = None \<or> device_extruder_info p = Some []"
      "extruder_info p = Some (l # r # rest')"
    using that
    by (simp add: telemetryMerge_def mergePrint_sel nozzleTemps_fallback)
  from a b c decodeTemp_bounds [of x] show ?thesis by blast
qed

theorem decodeTemp_range_witness:
  "nozzleTemp (telemetryMerge nanBuiltins empty_entry
      (report_msg (empty_report\<lparr>device_extruder_info := Some [NNum (Fin 14745750)]\<rparr>)))
   = num_of_int 150"
proof -
  have "print (report_msg (empty_report\<lparr>device_extruder_info := Some [NNum (Fin 14745750)]\<rparr>))
          = Some (empty_report\<lparr>device_extruder_info := Some [NNum (Fin 14745750)]\<rparr>)
        \<and> device_extruder_info (empty_report\<lparr>device_extruder_info := Some [NNum (Fin 14745750)]\<rparr>)
          = Some (NNum (Fin 14745750) # [])"
    by (simp add: report_msg_def)
  with decodeTemp_range [of "NNum (Fin 14745750)"
      "report_msg (empty_report\<lparr>device_extruder_info := Some [NNum (Fin 14745750)]\<rparr>)"
      "empty_report\<lparr>device_extruder_info := Some [NNum (Fin 14745750)]\<rparr>"
      "NNum (Fin 14745750)" "[]" nanBuiltins empty_entry]
  have "nozzleTemp (telemetryMerge nanBuiltins empty_entry
      (report_msg (empty_report\<lparr>device_extruder_info := Some [NNum (Fin 14745750)]\<rparr>)))
     = num_of_int (current (decodeTemp (NNum (Fin 14745750))))"
    by blast
  moreover have "decodeTemp (NNum (Fin 14745750)) = \<lparr>current = 150, target = 225\<rparr>"
    using decodeTemp_of_int [of 14745750] by simp
  ultimately show ?thesis by simp
qed


section \<open>Properties of the device connection manager\<close>

lemmas conn_defs = run_def printerAdd_def announce_def connectPrinter_def sendLog_def
  clearTimeout_def onConnect_def onClose_def scheduleReconnect_def reconnectTimeout_def
  resetReconnectCounter_def printerRemove_def endClient_def getClient_def getTimer_def
  sessions_def pendingTimers_def samplePrinter_def init_def Let_def entry_of_printer_def
  reconnectDelay_def delaySec_def

text \<open>
  C1, evaluated on the code. A printer is announced and its connection fails, so a
  reconnect timer is pending. The removal of the printer finds no registered client and
  leaves the timer pending and the descriptor cached; when the timer fires, a new
  connection is opened for the removed serial.
\<close>

theorem removed_printer_reconnects:
  "map t_id (pendingTimers (run init [PrinterAdd samplePrinter, ClientClose 0]) ''S1'') = [1]
   \<and> map t_id (pendingTimers
         (run init [PrinterAdd samplePrinter, ClientClose 0, PrinterRemove ''S1'']) ''S1'') = [1]
   \<and> printerDataCache
         (run init [PrinterAdd samplePrinter, ClientClose 0, PrinterRemove ''S1'']) ''S1''
       = Some samplePrinter
   \<and> map c_id (sessions
         (run init [PrinterAdd samplePrinter, ClientClose 0, PrinterRemove ''S1'', TimerFire 1])
         ''S1'') = [2]
   \<and> map c_id (sessions
         (run init [PrinterAdd samplePrinter, ClientConnect 0, PrinterRemove ''S1'',
                    ClientClose 0, TimerFire 1]) ''S1'') = [2]"
  by (simp add: conn_defs)

text \<open>
  C2, evaluated on the code. The delays of the first seven attempts, and the delay of the
  timer that is pending after the fifth failure in a row of one printer.
\<close>

theorem reconnect_delay_fifth_failure:
  "map reconnectDelay [0, 1, 2, 3, 4, 5, 6]
     = [5000, 10000, 20000, 40000, 80000, 120000, 120000]
   \<and> map t_delay (pendingTimers
         (run init [PrinterAdd samplePrinter, ClientClose 0, TimerFire 1, ClientClose 2,
                    TimerFire 3, ClientClose 4, TimerFire 5, ClientClose 6, TimerFire 7,
                    ClientClose 8]) ''S1'') = [80000]"
  by (simp add: conn_defs)

text \<open>
  C7, evaluated on the code. A printer announced twice before its first client has
  connected gets two clients, and both connect; when both fail instead, two reconnect
  timers are pending for the one serial.
\<close>

theorem two_sessions_for_one_serial:
  "map c_phase (sessions
      (run init [PrinterAdd samplePrinter, PrinterAdd samplePrinter, ClientConnect 0,
                 ClientConnect 1]) ''S1'') = [Connected, Connected]
   \<and> map t_id (pendingTimers
      (run init [PrinterAdd samplePrinter, PrinterAdd samplePrinter, ClientClose 0,
                 ClientClose 1]) ''S1'') = [2, 3]"
  by (simp add: conn_defs)

lemma distinct_id_eq:
  assumes "distinct (map c_id cs)" "c \<in> set cs" "c' \<in> set cs" "c_id c = c_id c'"
  shows "c = c'"
  using assms by (meson distinct_map inj_on_def)

lemma find_client:
  assumes "find (\<lambda>c. c_id c = cid) cs = Some c"
  shows "c \<in> set cs" and "c_id c = cid"
  using assms by (auto simp: find_Some_iff)

lemma inv_sendLog: "registered_live st \<Longrightarrow> registered_live (sendLog m st)"
  by (simp add: registered_live_def sendLog_def)

lemma inv_clearTimeout: "registered_live st \<Longrightarrow> registered_live (clearTimeout t st)"
  by (simp add: registered_live_def clearTimeout_def)

lemma inv_connectPrinter:
  assumes "registered_live st"
  shows "registered_live (connectPrinter p st)"
proof (cases "mqttClients st (serialNumber p) \<noteq> None")
  case True
  with assms show ?thesis by (simp add: connectPrinter_def)
next
  case False
  with assms show ?thesis
    unfolding registered_live_def connectPrinter_def Let_def sendLog_def clearTimeout_def
    by (cases "printerReconnectTimers st (serialNumber p)") (auto simp: less_Suc_eq)
qed

lemma inv_announce: "registered_live st \<Longrightarrow> registered_live (announce p st)"
  by (simp add: announce_def inv_connectPrinter)

lemma inv_printerAdd: "registered_live st \<Longrightarrow> registered_live (printerAdd p st)"
  by (simp add: printerAdd_def inv_announce inv_sendLog)

lemma inv_fold_announce:
  "registered_live st \<Longrightarrow>
   registered_live (fold (\<lambda>p s. announce p (sendLog (LogFromApi (name p) (model p) (serialNumber p)) s)) ps st)"
  by (induction ps arbitrary: st) (simp_all add: inv_announce inv_sendLog)

lemma inv_printersList: "registered_live st \<Longrightarrow> registered_live (printersList ps st)"
  by (simp add: printersList_def inv_fold_announce inv_sendLog)

lemma inv_scheduleReconnect:
  "registered_live st \<Longrightarrow> registered_live (scheduleReconnect sn st)"
  unfolding registered_live_def scheduleReconnect_def Let_def sendLog_def
  by (auto simp: less_Suc_eq split: option.splits)

lemma inv_printerRemove:
  assumes "registered_live st"
  shows "registered_live (printerRemove sn st)"
proof (cases "mqttClients st sn")
  case None
  with assms show ?thesis
    by (simp add: printerRemove_def Let_def sendLog_def registered_live_def)
next
  case (Some cid)
  from assms have i1: "\<And>sn' cid'. mqttClients st sn' = Some cid' \<Longrightarrow>
         \<exists>c\<in>set (clients st). c_id c = cid' \<and> serialNumber (c_printer c) = sn'
                                 \<and> c_phase c = Connected"
    and i2: "distinct (map c_id (clients st))"
    and i3: "\<forall>c\<in>set (clients st). c_id c < nextId st"
    by (auto simp: registered_live_def)
  let ?cs = "map (\<lambda>c. if c_id c = cid then c\<lparr>c_phase := Ending\<rparr> else c) (clients st)"
  have ids: "map c_id ?cs = map c_id (clients st)"
    by (induction "clients st") auto
  have r: "printerRemove sn st =
        st\<lparr>logs := logs st @ [LogRemoved sn], clients := ?cs,
           mqttClients := (mqttClients st)(sn := None), printers := (printers st)(sn := None)\<rparr>"
    using Some by (simp add: printerRemove_def Let_def sendLog_def endClient_def)
  have a: "\<exists>c\<in>set ?cs. c_id c = cid' \<and> serialNumber (c_printer c) = sn' \<and> c_phase c = Connected"
    if reg: "mqttClients st sn' = Some cid'" and ne: "sn' \<noteq> sn" for sn' cid'
  proof -
    from i1 [OF reg] obtain c' where c': "c' \<in> set (clients st)" "c_id c' = cid'"
      "serialNumber (c_printer c') = sn'" "c_phase c' = Connected" by blast
    from i1 [OF Some] obtain c where c: "c \<in> set (clients st)" "c_id c = cid"
      "serialNumber (c_printer c) = sn" by blast
    have "c_id c' \<noteq> cid"
    proof
      assume "c_id c' = cid"
      with c(2) have "c_id c' = c_id c" by simp
      from distinct_id_eq [OF i2 c'(1) c(1) this] c(3) c'(3) ne show False by simp
    qed
    with c'(1) have "c' \<in> set ?cs" by force
    with c' show ?thesis by blast
  qed
  have b: "\<forall>c\<in>set ?cs. c_id c < nextId st"
    using i3 by auto
  show ?thesis
    unfolding r registered_live_def using a b i2 by (auto simp: ids simp del: map_map)
qed

lemma inv_onConnect:
  assumes "registered_live st" and f: "getClient st cid = Some c" and ph: "c_phase c = Connecting"
  shows "registered_live
           (onConnect c (st\<lparr>clients := map (\<lambda>x. if c_id x = cid then x\<lparr>c_phase := Connected\<rparr> else x)
                                            (clients st)\<rparr>))"
proof -
  from assms(1) have i1: "\<And>sn' cid'. mqttClients st sn' = Some cid' \<Longrightarrow>
         \<exists>c\<in>set (clients st). c_id c = cid' \<and> serialNumber (c_printer c) = sn'
                                 \<and> c_phase c = Connected"
    and i2: "distinct (map c_id (clients st))"
    and i3: "\<forall>c\<in>set (clients st). c_id c < nextId st"
    by (auto simp: registered_live_def)
  from f have cin: "c \<in> set (clients st)" and cid: "c_id c = cid"
    by (auto simp: getClient_def dest: find_client)
  let ?cs = "map (\<lambda>x. if c_id x = cid then x\<lparr>c_phase := Connected\<rparr> else x) (clients st)"
  let ?sn = "serialNumber (c_printer c)"
  have ids: "map c_id ?cs = map c_id (clients st)"
    by (induction "clients st") auto
  have new: "c\<lparr>c_phase := Connected\<rparr> \<in> set ?cs"
    using cin cid by force
  have keep: "\<exists>x\<in>set ?cs. c_id x = cid' \<and> serialNumber (c_printer x) = sn' \<and> c_phase x = Connected"
    if reg: "mqttClients st sn' = Some cid'" for sn' cid'
  proof -
    from i1 [OF reg] obtain c' where c': "c' \<in> set (clients st)" "c_id c' = cid'"
      "serialNumber (c_printer c') = sn'" "c_phase c' = Connected" by blast
    show ?thesis
    proof (cases "c_id c' = cid")
      case True
      with c'(1) have "c'\<lparr>c_phase := Connected\<rparr> \<in> set ?cs" by force
      moreover have "c_id (c'\<lparr>c_phase := Connected\<rparr>) = cid'
          \<and> serialNumber (c_printer (c'\<lparr>c_phase := Connected\<rparr>)) = sn'
          \<and> c_phase (c'\<lparr>c_phase := Connected\<rparr>) = Connected"
        using c' by simp
      ultimately show ?thesis by (rule bexI [rotated])
    next
      case False
      with c'(1) have "c' \<in> set ?cs" by force
      with c' show ?thesis by blast
    qed
  qed
  have b: "\<forall>x\<in>set ?cs. c_id x < nextId st"
    using i3 by auto
  have m: "mqttClients (onConnect c (st\<lparr>clients := ?cs\<rparr>)) = (mqttClients st)(?sn \<mapsto> cid)"
    and cl: "clients (onConnect c (st\<lparr>clients := ?cs\<rparr>)) = ?cs"
    and nx: "nextId (onConnect c (st\<lparr>clients := ?cs\<rparr>)) = nextId st"
    by (simp_all add: onConnect_def Let_def sendLog_def resetReconnectCounter_def cid)
  show ?thesis
    unfolding registered_live_def m cl nx
  proof (intro conjI allI impI)
    fix sn' cid'
    assume "((mqttClients st)(?sn \<mapsto> cid)) sn' = Some cid'"
    then consider "sn' = ?sn" "cid' = cid" | "sn' \<noteq> ?sn" "mqttClients st sn' = Some cid'"
      by (auto split: if_splits)
    then show "\<exists>x\<in>set ?cs. c_id x = cid' \<and> serialNumber (c_printer x) = sn' \<and> c_phase x = Connected"
    proof cases
      case 1
      with cid have "c_id (c\<lparr>c_phase := Connected\<rparr>) = cid'
          \<and> serialNumber (c_printer (c\<lparr>c_phase := Connected\<rparr>)) = sn'
          \<and> c_phase (c\<lparr>c_phase := Connected\<rparr>) = Connected"
        by simp
      with new show ?thesis by (rule bexI [rotated])
    next
      case 2
      from keep [OF 2(2)] show ?thesis .
    qed
  next
    show "distinct (map c_id ?cs)" using i2 by (simp only: ids)
  next
    show "\<forall>x\<in>set ?cs. c_id x < nextId st" by (rule b)
  qed
qed

lemma inv_onClose:
  assumes "registered_live st" and f: "getClient st cid = Some c"
  shows "registered_live (onClose c (st\<lparr>clients := filter (\<lambda>x. c_id x \<noteq> cid) (clients st)\<rparr>))"
proof -
  from assms(1) have i1: "\<And>sn' cid'. mqttClients st sn' = Some cid' \<Longrightarrow>
         \<exists>c\<in>set (clients st). c_id c = cid' \<and> serialNumber (c_printer c) = sn'
                                 \<and> c_phase c = Connected"
    and i2: "distinct (map c_id (clients st))"
    and i3: "\<forall>c\<in>set (clients st). c_id c < nextId st"
    by (auto simp: registered_live_def)
  from f have cin: "c \<in> set (clients st)" and cid: "c_id c = cid"
    by (auto simp: getClient_def dest: find_client)
  let ?cs = "filter (\<lambda>x. c_id x \<noteq> cid) (clients st)"
  let ?sn = "serialNumber (c_printer c)"
  define st2 where "st2 = (case printers st ?sn of
        Some pr \<Rightarrow> st\<lparr>clients := ?cs, mqttClients := (mqttClients st)(?sn := None),
                       printers := (printers st)(?sn \<mapsto> pr\<lparr>online := JBool False\<rparr>)\<rparr>
      | None \<Rightarrow> st\<lparr>clients := ?cs, mqttClients := (mqttClients st)(?sn := None)\<rparr>)"
  have oc: "onClose c (st\<lparr>clients := ?cs\<rparr>) = scheduleReconnect ?sn st2"
    by (simp add: onClose_def Let_def st2_def split: option.splits)
  have f2: "mqttClients st2 = (mqttClients st)(?sn := None)" "clients st2 = ?cs"
    "nextId st2 = nextId st"
    by (simp_all add: st2_def split: option.splits)
  have "registered_live st2"
    unfolding registered_live_def f2
  proof (intro conjI allI impI)
    fix sn' cid'
    assume "((mqttClients st)(?sn := None)) sn' = Some cid'"
    then have ne: "sn' \<noteq> ?sn" and reg: "mqttClients st sn' = Some cid'"
      by (auto split: if_splits)
    from i1 [OF reg] obtain c' where c': "c' \<in> set (clients st)" "c_id c' = cid'"
      "serialNumber (c_printer c') = sn'" "c_phase c' = Connected" by blast
    have "c_id c' \<noteq> cid"
    proof
      assume "c_id c' = cid"
      with cid have "c_id c' = c_id c" by simp
      from distinct_id_eq [OF i2 c'(1) cin this] c'(3) ne show False by simp
    qed
    with c'(1) have "c' \<in> set ?cs" by simp
    with c' show "\<exists>x\<in>set ?cs. c_id x = cid' \<and> serialNumber (c_printer x) = sn' \<and> c_phase x = Connected"
      by blast
  next
    show "distinct (map c_id ?cs)" using i2 by (simp add: distinct_map_filter)
  next
    show "\<forall>x\<in>set ?cs. c_id x < nextId st" using i3 by simp
  qed
  then show ?thesis
    unfolding oc by (rule inv_scheduleReconnect)
qed

lemma inv_reconnectTimeout:
  "registered_live st \<Longrightarrow> registered_live (reconnectTimeout tm st)"
proof -
  assume a: "registered_live st"
  then have "registered_live (st\<lparr>printerReconnectTimers := (printerReconnectTimers st)(t_serial tm := None)\<rparr>)"
    by (simp add: registered_live_def)
  then show ?thesis
    by (simp add: reconnectTimeout_def Let_def inv_connectPrinter)
qed

lemma inv_step: "registered_live st \<Longrightarrow> registered_live (step st ev)"
proof (cases ev)
  case (PrintersList ps)
  assume "registered_live st"
  with PrintersList show ?thesis by (simp add: inv_printersList)
next
  case (PrinterAdd p)
  assume "registered_live st"
  with PrinterAdd show ?thesis by (simp add: inv_printerAdd)
next
  case (PrinterRemove sn)
  assume "registered_live st"
  with PrinterRemove show ?thesis by (simp add: inv_printerRemove)
next
  case (ClientConnect cid)
  assume "registered_live st"
  with ClientConnect show ?thesis
    by (auto simp: inv_onConnect split: option.splits)
next
  case (ClientClose cid)
  assume "registered_live st"
  with ClientClose show ?thesis
    by (auto simp: inv_onClose split: option.splits)
next
  case (TimerFire tid)
  assume "registered_live st"
  with TimerFire show ?thesis
    by (auto simp: inv_reconnectTimeout inv_clearTimeout split: option.splits)
qed

lemma inv_run: "registered_live st \<Longrightarrow> registered_live (run st evs)"
  unfolding run_def by (induction evs arbitrary: st) (simp_all add: inv_step)

lemma inv_init: "registered_live init"
  by (simp add: registered_live_def init_def)

lemma no_session_unregistered:
  assumes "sessions (run init evs) sn = []"
  shows "mqttClients (run init evs) sn = None"
proof (rule ccontr)
  assume "mqttClients (run init evs) sn \<noteq> None"
  then obtain cid where "mqttClients (run init evs) sn = Some cid" by blast
  with inv_run [OF inv_init, of evs]
  obtain c where "c \<in> set (clients (run init evs))" "serialNumber (c_printer c) = sn"
    "c_phase c = Connected"
    unfolding registered_live_def by blast
  then have "c \<in> set (sessions (run init evs) sn)"
    by (simp add: sessions_def)
  with assms show False by simp
qed

text \<open>
  C9: for a serial without a registered client, \<open>executeCommand\<close> writes its two log
  lines, the call and the missing client, and does nothing else: the translator does not
  run, nothing is published, no timer is set and no table changes. In every state that
  the events produce, a serial without a connecting or connected session has no
  registered client, so the same holds for it.
\<close>

theorem executeCommand_no_session:
  "(mqttClients st sn = None \<longrightarrow>
      executeCommand translate sn cmd st
        = st\<lparr>logs := logs st @ [LogExecuteCommand sn cmd,
                                  LogNoClient sn (dom (mqttClients st))]\<rparr>
    \<and> published (executeCommand translate sn cmd st) = published st
    \<and> timers (executeCommand translate sn cmd st) = timers st
    \<and> clients (executeCommand translate sn cmd st) = clients st
    \<and> mqttClients (executeCommand translate sn cmd st) = mqttClients st
    \<and> printers (executeCommand translate sn cmd st) = printers st)
   \<and> (sessions (run init evs) sn = [] \<longrightarrow>
      executeCommand translate sn cmd (run init evs)
        = (run init evs)\<lparr>logs := logs (run init evs) @
             [LogExecuteCommand sn cmd, LogNoClient sn (dom (mqttClients (run init evs)))]\<rparr>)"
proof -
  have a: "executeCommand translate sn cmd s
             = s\<lparr>logs := logs s @ [LogExecuteCommand sn cmd,
                                     LogNoClient sn (dom (mqttClients s))]\<rparr>"
    if "mqttClients s sn = None" for s
    using that by (simp add: executeCommand_def sendLog_def Let_def)
  have b: "published (executeCommand translate sn cmd st) = published st
    \<and> timers (executeCommand translate sn cmd st) = timers st
    \<and> clients (executeCommand translate sn cmd st) = clients st
    \<and> mqttClients (executeCommand translate sn cmd st) = mqttClients st
    \<and> printers (executeCommand translate sn cmd st) = printers st"
    if "mqttClients st sn = None"
    by (simp add: a [OF that])
  from a [of st] b a [OF no_session_unregistered, of evs] show ?thesis by blast
qed

theorem executeCommand_no_session_witness:
  "executeCommand translateControl ''S1'' (CmdString ''pause'')
      (run init [PrinterAdd samplePrinter, ClientClose 0])
     = (run init [PrinterAdd samplePrinter, ClientClose 0])
         \<lparr>logs := logs (run init [PrinterAdd samplePrinter, ClientClose 0]) @
            [LogExecuteCommand ''S1'' (CmdString ''pause''),
             LogNoClient ''S1'' (dom (mqttClients (run init [PrinterAdd samplePrinter, ClientClose 0])))]\<rparr>"
proof -
  have "sessions (run init [PrinterAdd samplePrinter, ClientClose 0]) ''S1'' = []"
    by (simp add: conn_defs)
  with executeCommand_no_session [of init "''S1''" translateControl "CmdString ''pause''"
      "[PrinterAdd samplePrinter, ClientClose 0]"]
  show ?thesis by blast
qed

lemma pause_is_published:
  "published (executeCommand translateControl ''S1'' (CmdString ''pause'')
      (run init [PrinterAdd samplePrinter, ClientConnect 0]))
   = [(0, ''device/S1/request'', GetVersion), (0, ''device/S1/request'', PushAll),
      (0, ''device/S1/request'', PrintCommand ''pause'')]"
  by (simp add: conn_defs executeCommand_def translateControl_def cmdType_def)

section \<open>Properties of the JPEG frame extraction\<close>

lemma find_at_bounds:
  "find_at pat buf i = Some k \<Longrightarrow> i \<le> k \<and> k + length pat \<le> i + length buf"
proof (induction buf arbitrary: i)
  case Nil
  then show ?case by (simp split: if_splits)
next
  case (Cons b bs)
  show ?case
  proof (cases "take (length pat) (b # bs) = pat")
    case True
    then have "length pat = min (length (b # bs)) (length pat)"
      by (metis length_take)
    then have "length pat \<le> length (b # bs)"
      by linarith
    with True Cons.prems show ?thesis by simp
  next
    case False
    with Cons.prems have "find_at pat bs (Suc i) = Some k" by simp
    from Cons.IH [OF this] show ?thesis by simp
  qed
qed

lemma find_at_match:
  "find_at pat buf i = Some k \<Longrightarrow> take (length pat) (drop (k - i) buf) = pat"
proof (induction buf arbitrary: i)
  case Nil
  then show ?case by (simp split: if_splits)
next
  case (Cons b bs)
  show ?case
  proof (cases "take (length pat) (b # bs) = pat")
    case True
    with Cons.prems have "k = i" by simp
    with True show ?thesis by simp
  next
    case False
    with Cons.prems have f: "find_at pat bs (Suc i) = Some k" by simp
    from find_at_bounds [OF f] have "Suc i \<le> k" by simp
    then have "k - i = Suc (k - Suc i)" by simp
    with Cons.IH [OF f] show ?thesis by simp
  qed
qed

lemma find_at_skip:
  assumes "find_at [a, b] xs i = None" and "a \<noteq> b"
  shows "find_at [a, b] (xs @ a # b # rest) i = Some (i + length xs)"
  using assms(1)
proof (induction xs arbitrary: i)
  case Nil
  show ?case by simp
next
  case (Cons x xs)
  from Cons.prems have ne: "take 2 (x # xs) \<noteq> [a, b]"
    and rec: "find_at [a, b] xs (Suc i) = None"
    by (simp_all split: if_splits)
  have "take 2 ((x # xs) @ a # b # rest) \<noteq> [a, b]"
  proof (cases xs)
    case Nil
    with assms(2) show ?thesis by auto
  next
    case (Cons y ys)
    with ne show ?thesis by simp
  qed
  with Cons.IH [OF rec] show ?case by simp
qed

lemma indexOf_start:
  assumes "indexOf noise JPEG_START 0 = None"
  shows "indexOf (noise @ JPEG_START @ rest) JPEG_START 0 = Some (length noise)"
proof -
  from assms have "find_at [0xFF, 0xD8] noise 0 = None"
    by (simp add: indexOf_def JPEG_START_def)
  then have "find_at [0xFF, 0xD8] (noise @ 0xFF # 0xD8 # rest) 0 = Some (0 + length noise)"
    by (rule find_at_skip) simp
  then show ?thesis
    by (simp add: indexOf_def JPEG_START_def)
qed

lemma indexOf_end:
  assumes "indexOf body JPEG_END 0 = None"
  shows "indexOf (JPEG_START @ body @ JPEG_END @ rest) JPEG_END 2 = Some (length body + 2)"
proof -
  from assms have n: "find_at [0xFF, 0xD9] body 0 = None"
    by (simp add: indexOf_def JPEG_END_def)
  have shift: "\<And>xs i j. find_at [0xFF, 0xD9] xs i = None \<Longrightarrow> find_at [0xFF, 0xD9] xs j = None"
  proof -
    fix xs :: "byte list" and i j
    show "find_at [0xFF, 0xD9] xs i = None \<Longrightarrow> find_at [0xFF, 0xD9] xs j = None"
      by (induction xs arbitrary: i j) (auto split: if_splits)
  qed
  from shift [OF n] have "find_at [0xFF, 0xD9] body 2 = None" .
  then have "find_at [0xFF, 0xD9] (body @ 0xFF # 0xD9 # rest) 2 = Some (2 + length body)"
    by (rule find_at_skip) simp
  then show ?thesis
    by (simp add: indexOf_def JPEG_END_def JPEG_START_def add.commute)
qed

lemma fold_send:
  "fold (\<lambda>res. sendJpegFrame res f) vs sd = sd\<lparr>sent := sent sd @ map (\<lambda>v. (v, f)) vs\<rparr>"
  by (induction vs arbitrary: sd) (simp_all add: sendJpegFrame_def)

lemma emitFrame_fields:
  "buffer (emitFrame now f sd) = buffer sd"
  "lastFrame (emitFrame now f sd) = Some f"
  "lastFrameTime (emitFrame now f sd) = now"
  "frameCount (emitFrame now f sd) = frameCount sd + 1"
  "viewers (emitFrame now f sd) = viewers sd"
  "sent (emitFrame now f sd) = sent sd @ map (\<lambda>v. (v, f)) (viewers sd)"
  by (simp_all add: emitFrame_def Let_def fold_send)

lemma process_no_start:
  assumes "indexOf (buffer sd) JPEG_START 0 = None"
  shows "processJpegBuffer now sd = sd\<lparr>buffer := []\<rparr>"
  using assms by (subst processJpegBuffer.simps) simp

lemma process_frame:
  assumes n: "indexOf noise JPEG_START 0 = None"
    and b: "indexOf body JPEG_END 0 = None"
    and buf: "buffer sd = noise @ JPEG_START @ body @ JPEG_END @ rest"
  shows "processJpegBuffer now sd =
         processJpegBuffer now
           (if 100 < length (JPEG_START @ body @ JPEG_END)
            then emitFrame now (JPEG_START @ body @ JPEG_END) (sd\<lparr>buffer := rest\<rparr>)
            else sd\<lparr>buffer := rest\<rparr>)"
proof -
  let ?tail = "JPEG_START @ body @ JPEG_END @ rest"
  have s: "indexOf (buffer sd) JPEG_START 0 = Some (length noise)"
    unfolding buf using n by (rule indexOf_start)
  define sd1 where "sd1 = (if 0 < length noise then sd\<lparr>buffer := drop (length noise) (buffer sd)\<rparr> else sd)"
  have b1: "buffer sd1 = ?tail"
    by (simp add: sd1_def buf)
  have sd1': "sd1\<lparr>buffer := rest\<rparr> = sd\<lparr>buffer := rest\<rparr>"
    by (simp add: sd1_def)
  have e: "indexOf (buffer sd1) JPEG_END 2 = Some (length body + 2)"
    unfolding b1 using b by (rule indexOf_end)
  have l2: "length JPEG_START = 2" "length JPEG_END = 2"
    by (simp_all add: JPEG_START_def JPEG_END_def)
  have tk: "take (length body + 2 + 2) (buffer sd1) = JPEG_START @ body @ JPEG_END"
    by (simp add: b1 l2)
  have dr: "drop (length body + 2 + 2) (buffer sd1) = rest"
    by (simp add: b1 l2)
  show ?thesis
    by (subst processJpegBuffer.simps)
       (simp only: s option.case Let_def sd1_def [symmetric] e tk dr sd1')
qed


lemma indexOf_found:
  assumes "indexOf buf pat off = Some k" and "pat \<noteq> []"
  shows "off \<le> k" and "k + length pat \<le> length buf" and "take (length pat) (drop k buf) = pat"
proof -
  from assms(1) have f: "find_at pat (drop off buf) off = Some k"
    by (simp add: indexOf_def)
  from find_at_bounds [OF f] have bd: "off \<le> k" "k + length pat \<le> off + length (drop off buf)"
    by simp_all
  from bd(1) show "off \<le> k" .
  from assms(2) have "0 < length pat" by (cases pat) simp_all
  with bd(1) have "off < k + length pat" by linarith
  with bd(2) show le: "k + length pat \<le> length buf" by simp
  from find_at_match [OF f] have "take (length pat) (drop (k - off) (drop off buf)) = pat" .
  with bd(1) show "take (length pat) (drop k buf) = pat" by simp
qed

lemma extracted_isFrame:
  assumes s: "indexOf buf0 JPEG_START 0 = Some startIdx"
    and b1: "buf1 = drop startIdx buf0"
    and e: "indexOf buf1 JPEG_END 2 = Some endIdx"
    and len: "100 < length (take (endIdx + 2) buf1)"
  shows "isFrame (take (endIdx + 2) buf1)"
proof -
  have ne: "JPEG_START \<noteq> []" "JPEG_END \<noteq> []" and l2: "length JPEG_START = 2" "length JPEG_END = 2"
    by (simp_all add: JPEG_START_def JPEG_END_def)
  from indexOf_found(3) [OF s ne(1)] have st: "take 2 buf1 = JPEG_START"
    by (simp add: b1 l2)
  from indexOf_found [OF e ne(2)]
  have ge: "2 \<le> endIdx" and le: "endIdx + 2 \<le> length buf1"
    and en: "take 2 (drop endIdx buf1) = JPEG_END"
    by (simp_all add: l2)
  have a: "take 2 (take (endIdx + 2) buf1) = JPEG_START"
    using st by (simp add: min_def)
  from le have ln: "length (take (endIdx + 2) buf1) = endIdx + 2" by simp
  have "drop endIdx (take (endIdx + 2) buf1) = take 2 (drop endIdx buf1)"
    by (simp add: drop_take)
  with en have b: "drop (length (take (endIdx + 2) buf1) - 2) (take (endIdx + 2) buf1) = JPEG_END"
    by (simp only: ln) simp
  from len a b show ?thesis
    unfolding isFrame_def by blast
qed

lemma process_frames_good:
  "\<exists>new. sent (processJpegBuffer now sd) = sent sd @ new
        \<and> (\<forall>x\<in>set new. isFrame (snd x))
        \<and> (lastFrame (processJpegBuffer now sd) = lastFrame sd
            \<or> (\<exists>f. lastFrame (processJpegBuffer now sd) = Some f \<and> isFrame f))"
proof (induction now sd rule: processJpegBuffer.induct)
  case (1 now sd)
  show ?case
  proof (cases "indexOf (buffer sd) JPEG_START 0")
    case None
    then have "processJpegBuffer now sd = sd\<lparr>buffer := []\<rparr>"
      by (rule process_no_start)
    then show ?thesis by simp
  next
    case (Some startIdx)
    define sd1 where "sd1 = (if 0 < startIdx then sd\<lparr>buffer := drop startIdx (buffer sd)\<rparr> else sd)"
    have b1: "buffer sd1 = drop startIdx (buffer sd)"
      by (simp add: sd1_def)
    have k1: "sent sd1 = sent sd" "lastFrame sd1 = lastFrame sd" "viewers sd1 = viewers sd"
      by (simp_all add: sd1_def)
    show ?thesis
    proof (cases "indexOf (buffer sd1) JPEG_END 2")
      case None
      with Some have "processJpegBuffer now sd = sd1"
        by (subst processJpegBuffer.simps) (simp add: sd1_def Let_def)
      then show ?thesis by (simp add: k1)
    next
      case e: (Some endIdx)
      define jpegData where "jpegData = take (endIdx + 2) (buffer sd1)"
      define sd2 where "sd2 = sd1\<lparr>buffer := drop (endIdx + 2) (buffer sd1)\<rparr>"
      define sd3 where "sd3 = (if 100 < length jpegData then emitFrame now jpegData sd2 else sd2)"
      have step: "processJpegBuffer now sd = processJpegBuffer now sd3"
        using Some e
        by (subst processJpegBuffer.simps)
           (simp add: sd1_def [symmetric] Let_def jpegData_def sd2_def sd3_def)
      from "1.IH" [OF Some sd1_def e jpegData_def sd2_def]
      obtain new where n1: "sent (processJpegBuffer now sd3) = sent sd3 @ new"
        and n2: "\<forall>x\<in>set new. isFrame (snd x)"
        and n3: "lastFrame (processJpegBuffer now sd3) = lastFrame sd3
                 \<or> (\<exists>f. lastFrame (processJpegBuffer now sd3) = Some f \<and> isFrame f)"
        unfolding sd3_def by blast
      have k2: "sent sd2 = sent sd" "lastFrame sd2 = lastFrame sd" "viewers sd2 = viewers sd"
        by (simp_all add: sd2_def k1)
      show ?thesis
      proof (cases "100 < length jpegData")
        case True
        then have fr: "isFrame jpegData"
          unfolding jpegData_def by (intro extracted_isFrame [OF Some b1 e])
        from True have s3: "sent sd3 = sent sd @ map (\<lambda>v. (v, jpegData)) (viewers sd)"
          and l3: "lastFrame sd3 = Some jpegData"
          by (simp_all add: sd3_def emitFrame_fields k2)
        from n1 s3 have "sent (processJpegBuffer now sd)
                         = sent sd @ (map (\<lambda>v. (v, jpegData)) (viewers sd) @ new)"
          by (simp add: step)
        moreover from n2 fr
        have "\<forall>x\<in>set (map (\<lambda>v. (v, jpegData)) (viewers sd) @ new). isFrame (snd x)"
          by auto
        moreover from n3 l3 fr
        have "lastFrame (processJpegBuffer now sd) = lastFrame sd
              \<or> (\<exists>f. lastFrame (processJpegBuffer now sd) = Some f \<and> isFrame f)"
          by (auto simp: step)
        ultimately show ?thesis by blast
      next
        case False
        then have "sd3 = sd2" by (simp add: sd3_def)
        with n1 n2 n3 show ?thesis
          by (auto simp: step k2)
      qed
    qed
  qed
qed

lemma find_at_none_shift:
  "find_at pat xs i = None \<Longrightarrow> find_at pat xs j = None"
  by (induction xs arbitrary: i j) (auto split: if_splits)

lemma process_no_end:
  assumes s: "indexOf (buffer sd) JPEG_START 0 = Some k"
    and e: "indexOf (drop k (buffer sd)) JPEG_END 2 = None"
  shows "processJpegBuffer now sd = sd\<lparr>buffer := drop k (buffer sd)\<rparr>"
proof -
  define sd1 where "sd1 = (if 0 < k then sd\<lparr>buffer := drop k (buffer sd)\<rparr> else sd)"
  have b1: "buffer sd1 = drop k (buffer sd)"
    by (simp add: sd1_def)
  have eq: "sd1 = sd\<lparr>buffer := drop k (buffer sd)\<rparr>"
    by (simp add: sd1_def)
  from e have e1: "indexOf (buffer sd1) JPEG_END 2 = None"
    by (simp only: b1)
  have "processJpegBuffer now sd = sd1"
    by (subst processJpegBuffer.simps)
       (simp only: s option.case Let_def sd1_def [symmetric] e1)
  then show ?thesis by (simp only: eq)
qed

lemma process_step:
  assumes s: "indexOf (buffer sd) JPEG_START 0 = Some k"
    and e: "indexOf (drop k (buffer sd)) JPEG_END 2 = Some endIdx"
  shows "processJpegBuffer now sd =
         processJpegBuffer now
           (if 100 < length (take (endIdx + 2) (drop k (buffer sd)))
            then emitFrame now (take (endIdx + 2) (drop k (buffer sd)))
                   (sd\<lparr>buffer := drop (endIdx + 2) (drop k (buffer sd))\<rparr>)
            else sd\<lparr>buffer := drop (endIdx + 2) (drop k (buffer sd))\<rparr>)"
proof -
  define sd1 where "sd1 = (if 0 < k then sd\<lparr>buffer := drop k (buffer sd)\<rparr> else sd)"
  have b1: "buffer sd1 = drop k (buffer sd)"
    by (simp add: sd1_def)
  have upd: "sd1\<lparr>buffer := drop (endIdx + 2) (drop k (buffer sd))\<rparr>
             = sd\<lparr>buffer := drop (endIdx + 2) (drop k (buffer sd))\<rparr>"
    by (simp add: sd1_def)
  from e have e1: "indexOf (buffer sd1) JPEG_END 2 = Some endIdx"
    by (simp only: b1)
  have "processJpegBuffer now sd =
        processJpegBuffer now
           (if 100 < length (take (endIdx + 2) (buffer sd1))
            then emitFrame now (take (endIdx + 2) (buffer sd1))
                   (sd1\<lparr>buffer := drop (endIdx + 2) (buffer sd1)\<rparr>)
            else sd1\<lparr>buffer := drop (endIdx + 2) (buffer sd1)\<rparr>)"
    by (subst processJpegBuffer.simps)
       (simp only: s option.case Let_def sd1_def [symmetric] e1)
  then show ?thesis
    by (simp only: b1 upd)
qed

lemma process_unfinished:
  assumes n: "indexOf noise JPEG_START 0 = None"
    and b: "indexOf body JPEG_END 0 = None"
    and buf: "buffer sd = noise @ JPEG_START @ body"
  shows "processJpegBuffer now sd = sd\<lparr>buffer := JPEG_START @ body\<rparr>"
proof -
  have s: "indexOf (buffer sd) JPEG_START 0 = Some (length noise)"
    unfolding buf using n by (rule indexOf_start)
  from b have "find_at JPEG_END body 0 = None"
    by (simp add: indexOf_def)
  then have "find_at JPEG_END body 2 = None"
    by (rule find_at_none_shift)
  then have e: "indexOf (drop (length noise) (buffer sd)) JPEG_END 2 = None"
    by (simp add: indexOf_def buf JPEG_START_def)
  from process_no_end [OF s e, of now] show ?thesis
    by (simp add: buf)
qed

text \<open>
  C8: a buffer without a start marker is discarded whole; bytes before the first start
  marker are discarded and the span from the start marker to the next end marker is
  taken out of the buffer, cached and written to every viewer when it is longer than 100
  bytes and dropped otherwise; every frame that is written or cached is longer than 100
  bytes, starts with FFD8 and ends with FFD9; a buffer of noise followed by two such
  spans gives exactly two frames, in order, and an empty buffer; and when a start marker
  is found but no end marker follows it, the bytes before the start marker are discarded
  and the unfinished span, from the start marker on, stays in the buffer, with nothing
  written or cached. The three branches of one round of the loop are stated on the
  indices that the two searches return.
\<close>

theorem jpeg_extraction:
  "(indexOf (buffer sd) JPEG_START 0 = None \<longrightarrow> processJpegBuffer now sd = sd\<lparr>buffer := []\<rparr>)
   \<and> (indexOf noise JPEG_START 0 = None \<and> indexOf body JPEG_END 0 = None
       \<and> buffer sd = noise @ JPEG_START @ body @ JPEG_END @ rest \<longrightarrow>
       processJpegBuffer now sd =
         processJpegBuffer now
           (if 100 < length (JPEG_START @ body @ JPEG_END)
            then emitFrame now (JPEG_START @ body @ JPEG_END) (sd\<lparr>buffer := rest\<rparr>)
            else sd\<lparr>buffer := rest\<rparr>))
   \<and> (\<exists>new. sent (processJpegBuffer now sd) = sent sd @ new
          \<and> (\<forall>x\<in>set new. isFrame (snd x))
          \<and> (lastFrame (processJpegBuffer now sd) = lastFrame sd
              \<or> (\<exists>f. lastFrame (processJpegBuffer now sd) = Some f \<and> isFrame f)))
   \<and> (indexOf noise JPEG_START 0 = None \<and> indexOf b1 JPEG_END 0 = None
       \<and> indexOf b2 JPEG_END 0 = None
       \<and> 100 < length (JPEG_START @ b1 @ JPEG_END) \<and> 100 < length (JPEG_START @ b2 @ JPEG_END)
       \<and> buffer sd = noise @ JPEG_START @ b1 @ JPEG_END @ JPEG_START @ b2 @ JPEG_END \<longrightarrow>
       buffer (processJpegBuffer now sd) = []
       \<and> frameCount (processJpegBuffer now sd) = frameCount sd + 2
       \<and> lastFrame (processJpegBuffer now sd) = Some (JPEG_START @ b2 @ JPEG_END)
       \<and> sent (processJpegBuffer now sd) =
           sent sd @ map (\<lambda>v. (v, JPEG_START @ b1 @ JPEG_END)) (viewers sd)
                   @ map (\<lambda>v. (v, JPEG_START @ b2 @ JPEG_END)) (viewers sd))
   \<and> (indexOf (buffer sd) JPEG_START 0 = Some k
       \<and> indexOf (drop k (buffer sd)) JPEG_END 2 = None \<longrightarrow>
       processJpegBuffer now sd = sd\<lparr>buffer := drop k (buffer sd)\<rparr>)
   \<and> (indexOf noise JPEG_START 0 = None \<and> indexOf body JPEG_END 0 = None
       \<and> buffer sd = noise @ JPEG_START @ body \<longrightarrow>
       processJpegBuffer now sd = sd\<lparr>buffer := JPEG_START @ body\<rparr>)
   \<and> (indexOf (buffer sd) JPEG_START 0 = Some k
       \<and> indexOf (drop k (buffer sd)) JPEG_END 2 = Some endIdx \<longrightarrow>
       processJpegBuffer now sd =
         processJpegBuffer now
           (if 100 < length (take (endIdx + 2) (drop k (buffer sd)))
            then emitFrame now (take (endIdx + 2) (drop k (buffer sd)))
                   (sd\<lparr>buffer := drop (endIdx + 2) (drop k (buffer sd))\<rparr>)
            else sd\<lparr>buffer := drop (endIdx + 2) (drop k (buffer sd))\<rparr>))"
proof -
  have two: "buffer (processJpegBuffer now sd) = []
       \<and> frameCount (processJpegBuffer now sd) = frameCount sd + 2
       \<and> lastFrame (processJpegBuffer now sd) = Some (JPEG_START @ b2 @ JPEG_END)
       \<and> sent (processJpegBuffer now sd) =
           sent sd @ map (\<lambda>v. (v, JPEG_START @ b1 @ JPEG_END)) (viewers sd)
                   @ map (\<lambda>v. (v, JPEG_START @ b2 @ JPEG_END)) (viewers sd)"
    if n: "indexOf noise JPEG_START 0 = None" and i1: "indexOf b1 JPEG_END 0 = None"
      and i2: "indexOf b2 JPEG_END 0 = None"
      and g1: "100 < length (JPEG_START @ b1 @ JPEG_END)"
      and g2: "100 < length (JPEG_START @ b2 @ JPEG_END)"
      and buf: "buffer sd = noise @ JPEG_START @ b1 @ JPEG_END @ JPEG_START @ b2 @ JPEG_END"
  proof -
    let ?f1 = "JPEG_START @ b1 @ JPEG_END" and ?f2 = "JPEG_START @ b2 @ JPEG_END"
    define s1 where "s1 = emitFrame now ?f1 (sd\<lparr>buffer := ?f2\<rparr>)"
    define s2 where "s2 = emitFrame now ?f2 (s1\<lparr>buffer := []\<rparr>)"
    have e0: "indexOf [] JPEG_START 0 = None"
      by (simp add: indexOf_def JPEG_START_def)
    have "processJpegBuffer now sd = processJpegBuffer now s1"
      using process_frame [OF n i1, of sd ?f2 now] buf g1 by (simp add: s1_def)
    also have "buffer s1 = [] @ JPEG_START @ b2 @ JPEG_END @ []"
      by (simp add: s1_def emitFrame_fields)
    from process_frame [OF e0 i2 this, of now] g2
    have "processJpegBuffer now s1 = processJpegBuffer now s2"
      by (simp add: s2_def)
    also have "buffer s2 = []"
      by (simp add: s2_def emitFrame_fields)
    then have "indexOf (buffer s2) JPEG_START 0 = None"
      by (simp add: e0)
    then have "processJpegBuffer now s2 = s2\<lparr>buffer := []\<rparr>"
      by (rule process_no_start)
    finally have r: "processJpegBuffer now sd = s2\<lparr>buffer := []\<rparr>" .
    show ?thesis
      by (simp add: r s2_def s1_def emitFrame_fields)
  qed
  from process_no_start [of sd now] process_frame [of noise body sd rest now]
    process_frames_good [of now sd] two
    process_no_end [of sd k now] process_unfinished [of noise body sd now]
    process_step [of sd k endIdx now]
  show ?thesis by blast
qed


theorem jpeg_extraction_witness:
  "buffer (processJpegBuffer 5 stream0) = []
   \<and> frameCount (processJpegBuffer 5 stream0) = 2
   \<and> sent (processJpegBuffer 5 stream0)
       = [(7, JPEG_START @ body0 @ JPEG_END), (7, JPEG_START @ body0 @ JPEG_END)]
   \<and> processJpegBuffer 5 (stream0\<lparr>buffer := noise0 @ JPEG_START @ body0\<rparr>)
       = stream0\<lparr>buffer := JPEG_START @ body0\<rparr>"
proof -
  have n: "indexOf noise0 JPEG_START 0 = None"
    by (simp add: indexOf_def noise0_def JPEG_START_def)
  have "\<And>i. find_at JPEG_END (replicate k 0x22) i = None" for k
    by (induction k) (simp_all add: JPEG_END_def)
  then have b: "indexOf body0 JPEG_END 0 = None"
    by (simp add: indexOf_def body0_def)
  have g: "100 < length (JPEG_START @ body0 @ JPEG_END)"
    by (simp add: body0_def JPEG_START_def JPEG_END_def)
  have buf: "buffer stream0 = noise0 @ JPEG_START @ body0 @ JPEG_END @ JPEG_START @ body0 @ JPEG_END"
    by (simp add: stream0_def)
  from jpeg_extraction [of stream0 5 noise0 body0 "[]" body0 body0] n b g buf
  have "buffer (processJpegBuffer 5 stream0) = []
       \<and> frameCount (processJpegBuffer 5 stream0) = frameCount stream0 + 2
       \<and> lastFrame (processJpegBuffer 5 stream0) = Some (JPEG_START @ body0 @ JPEG_END)
       \<and> sent (processJpegBuffer 5 stream0) =
           sent stream0 @ map (\<lambda>v. (v, JPEG_START @ body0 @ JPEG_END)) (viewers stream0)
                   @ map (\<lambda>v. (v, JPEG_START @ body0 @ JPEG_END)) (viewers stream0)"
    by blast
  then have full: "buffer (processJpegBuffer 5 stream0) = []
       \<and> frameCount (processJpegBuffer 5 stream0) = 2
       \<and> sent (processJpegBuffer 5 stream0)
           = [(7, JPEG_START @ body0 @ JPEG_END), (7, JPEG_START @ body0 @ JPEG_END)]"
    by (simp add: stream0_def)
  have buf2: "buffer (stream0\<lparr>buffer := noise0 @ JPEG_START @ body0\<rparr>)
                = noise0 @ JPEG_START @ body0"
    by simp
  from jpeg_extraction [of "stream0\<lparr>buffer := noise0 @ JPEG_START @ body0\<rparr>" 5 noise0 body0]
    n b buf2
  have "processJpegBuffer 5 (stream0\<lparr>buffer := noise0 @ JPEG_START @ body0\<rparr>)
          = stream0\<lparr>buffer := noise0 @ JPEG_START @ body0, buffer := JPEG_START @ body0\<rparr>"
    by blast
  then have part: "processJpegBuffer 5 (stream0\<lparr>buffer := noise0 @ JPEG_START @ body0\<rparr>)
                     = stream0\<lparr>buffer := JPEG_START @ body0\<rparr>"
    by simp
  from full part show ?thesis by blast
qed


end
